theory Spec2Isabelle
  imports Complex_Main "HOL-Library.Char_ord" "HOL-Library.List_Lexorder"
begin

section \<open>Data model\<close>

text \<open>
  The layout pipeline of \<^verbatim>\<open>lib/layout.js\<close> and the rank stage of \<^verbatim>\<open>lib/rank.js\<close>
  work on graphs of the graph library: a graph maps node ids to value objects and edge
  ids to a source, a target and a value object. Value objects are JavaScript objects
  and are shared by reference between graphs (a copy or a filtered view of a graph
  holds the very same objects) and between edges (the two directions of an undirected
  input edge share one object). The model therefore keeps the objects in a store and
  lets graphs hold references into it.

  JavaScript numbers that hold ranks, lengths and counters are modelled as \<open>int\<close> or
  \<open>nat\<close> (they stay far below \<open>2^53\<close>); dimensions and coordinates as \<open>rat\<close>. A
  property that is absent (\<^verbatim>\<open>undefined\<close>) is \<open>None\<close>, and so is a number that is
  \<^verbatim>\<open>NaN\<close> because it was computed from an absent one.
\<close>

type_synonym nid = string
type_synonym eid = string
type_synonym ref = nat

datatype error = NotAcyclic | NoEnterEdge | GraphError | TypeError

datatype pref = PInt int | PMin | PMax

record point =
  pt_x :: "rat option"
  pt_y :: "rat option"
  pt_ul :: "rat option"
  pt_ur :: "rat option"
  pt_dl :: "rat option"
  pt_dr :: "rat option"

text \<open>The \<^verbatim>\<open>edge\<close> property of a dummy node: \<^verbatim>\<open>{ id: e, source: s, target: t, attrs: a }\<close>.\<close>

record edge_ref =
  er_id :: eid
  er_source :: nid
  er_target :: nid
  er_attrs :: ref

record node_value =
  nv_width :: "rat option"
  nv_height :: "rat option"
  nv_prefRank :: "pref option"
  nv_rank :: "int option"
  nv_dummy :: bool
  nv_edge :: "edge_ref option"
  nv_index :: "nat option"
  nv_order :: "nat option"
  nv_coords :: point
  nv_originalNodes :: "nid list option"
  nv_low :: "nat option"
  nv_lim :: "nat option"

record edge_value =
  ev_e :: "eid option"
  ev_minLen :: "int option"
  ev_width :: "rat option"
  ev_height :: "rat option"
  ev_points :: "point option list option"
  ev_reversed :: bool

text \<open>The object store: node value objects and edge value objects, with the next free
  reference of each kind.\<close>

record world =
  nvals :: "ref \<Rightarrow> node_value option"
  evals :: "ref \<Rightarrow> edge_value option"
  nfree :: ref
  efree :: ref

text \<open>A graph of the graph library. \<open>g_nodes\<close> and \<open>g_edges\<close> are in insertion order,
  which is the order \<^verbatim>\<open>eachNode\<close>, \<^verbatim>\<open>nodes()\<close>, \<^verbatim>\<open>eachEdge\<close> and \<^verbatim>\<open>edges()\<close> iterate in.
  \<open>g_nextId\<close> is the counter behind generated ids; \<open>g_compoundNodes\<close> and \<open>g_root\<close> are
  the two properties the code stores in the graph's own value; \<open>g_selfLoops\<close> holds the
  self-loops the acyclic stage has taken out of the working set.\<close>

record edge_entry =
  e_id :: eid
  e_source :: nid
  e_target :: nid
  e_val :: ref

record graph =
  g_directed :: bool
  g_nodes :: "(nid \<times> ref) list"
  g_edges :: "edge_entry list"
  g_nextId :: nat
  g_compoundNodes :: "nid list option"
  g_root :: "nid option"
  g_selfLoops :: "edge_entry list"

text \<open>The input graph of \<^verbatim>\<open>run\<close>: a plain (non-compound) graph of the library, directed
  or not. A node or edge value may be \<^verbatim>\<open>undefined\<close>.\<close>

record in_node =
  in_width :: "rat option"
  in_height :: "rat option"
  in_rank :: "pref option"

record in_edge =
  ie_minLen :: "int option"
  ie_width :: "rat option"
  ie_height :: "rat option"

record in_graph =
  ig_directed :: bool
  ig_nodes :: "(nid \<times> in_node option) list"
  ig_edges :: "(eid \<times> nid \<times> nid \<times> in_edge option) list"

text \<open>The configuration the pipeline touches: the rank separation held by the position
  phase.\<close>

record config =
  rankSep :: rat

section \<open>Errors and iteration\<close>

definition ebind :: "error + 'a \<Rightarrow> ('a \<Rightarrow> error + 'b) \<Rightarrow> error + 'b" where
  "ebind m f = (case m of Inl e \<Rightarrow> Inl e | Inr a \<Rightarrow> f a)"

fun efold :: "('a \<Rightarrow> 's \<Rightarrow> error + 's) \<Rightarrow> 'a list \<Rightarrow> 's \<Rightarrow> error + 's" where
  "efold f [] s = Inr s"
| "efold f (a # as) s = (case f a s of Inl e \<Rightarrow> Inl e | Inr s' \<Rightarrow> efold f as s')"

section \<open>The graph library\<close>

text \<open>Decimal rendering of a counter, as string concatenation \<^verbatim>\<open>"_" + n\<close> does it.\<close>

definition digit_char :: "nat \<Rightarrow> char" where
  "digit_char d = char_of (48 + d)"

fun show_nat_aux :: "nat \<Rightarrow> nat \<Rightarrow> string \<Rightarrow> string" where
  "show_nat_aux 0 n acc = acc"
| "show_nat_aux (Suc fuel) n acc =
     (if n < 10 then digit_char n # acc
      else show_nat_aux fuel (n div 10) (digit_char (n mod 10) # acc))"

definition show_nat :: "nat \<Rightarrow> string" where
  "show_nat n = show_nat_aux (Suc n) n []"

definition empty_world :: world where
  "empty_world = \<lparr> nvals = (\<lambda>_. None), evals = (\<lambda>_. None), nfree = 0, efree = 0 \<rparr>"

definition empty_graph :: "bool \<Rightarrow> graph" where
  "empty_graph d = \<lparr> g_directed = d, g_nodes = [], g_edges = [], g_nextId = 0,
     g_compoundNodes = None, g_root = None, g_selfLoops = [] \<rparr>"

definition new_node_value :: node_value where
  "new_node_value = \<lparr> nv_width = None, nv_height = None, nv_prefRank = None,
     nv_rank = None, nv_dummy = False, nv_edge = None, nv_index = None, nv_order = None,
     nv_coords = \<lparr> pt_x = None, pt_y = None, pt_ul = None, pt_ur = None,
                    pt_dl = None, pt_dr = None \<rparr>,
     nv_originalNodes = None, nv_low = None, nv_lim = None \<rparr>"

definition new_edge_value :: edge_value where
  "new_edge_value = \<lparr> ev_e = None, ev_minLen = None, ev_width = None, ev_height = None,
     ev_points = None, ev_reversed = False \<rparr>"

definition alloc_node :: "node_value \<Rightarrow> world \<Rightarrow> ref \<times> world" where
  "alloc_node v w = (nfree w, w\<lparr> nvals := (nvals w)(nfree w \<mapsto> v), nfree := Suc (nfree w) \<rparr>)"

definition alloc_edge :: "edge_value \<Rightarrow> world \<Rightarrow> ref \<times> world" where
  "alloc_edge v w = (efree w, w\<lparr> evals := (evals w)(efree w \<mapsto> v), efree := Suc (efree w) \<rparr>)"

definition node_ids :: "graph \<Rightarrow> nid list" where
  "node_ids g = map fst (g_nodes g)"

definition edge_ids :: "graph \<Rightarrow> eid list" where
  "edge_ids g = map e_id (g_edges g)"

definition hasNode :: "graph \<Rightarrow> nid \<Rightarrow> bool" where
  "hasNode g u = (u \<in> set (node_ids g))"

definition hasEdge :: "graph \<Rightarrow> eid \<Rightarrow> bool" where
  "hasEdge g e = (e \<in> set (edge_ids g))"

definition node_ref :: "graph \<Rightarrow> nid \<Rightarrow> ref option" where
  "node_ref g u = map_of (g_nodes g) u"

definition find_edge :: "graph \<Rightarrow> eid \<Rightarrow> edge_entry option" where
  "find_edge g e = find (\<lambda>x. e_id x = e) (g_edges g)"

text \<open>\<^verbatim>\<open>g.node(u)\<close>: the value object of a node, read through the store.\<close>

definition node_val :: "world \<Rightarrow> graph \<Rightarrow> nid \<Rightarrow> node_value option" where
  "node_val w g u = (case node_ref g u of None \<Rightarrow> None | Some r \<Rightarrow> nvals w r)"

definition edge_val :: "world \<Rightarrow> graph \<Rightarrow> eid \<Rightarrow> edge_value option" where
  "edge_val w g e = (case find_edge g e of None \<Rightarrow> None | Some x \<Rightarrow> evals w (e_val x))"

text \<open>Generated ids: \<^verbatim>\<open>do { id = "_" + (++nextId) } while (has(id))\<close>. At most
  \<open>length used\<close> candidates can be taken, so the fuel \<open>length used\<close> is never
  exhausted before a free id is met.\<close>

fun fresh_id :: "nat \<Rightarrow> nat \<Rightarrow> string list \<Rightarrow> nat" where
  "fresh_id 0 k used = k"
| "fresh_id (Suc fuel) k used =
     (if (''_'' @ show_nat k) \<in> set used then fresh_id fuel (Suc k) used else k)"

definition gen_id :: "nat \<Rightarrow> string list \<Rightarrow> nat" where
  "gen_id n used = fresh_id (length used) (Suc n) used"

text \<open>\<^verbatim>\<open>addNode(u, value)\<close> with a given id throws when the id is taken; with \<^verbatim>\<open>null\<close> it
  generates one.\<close>

definition addNode :: "nid \<Rightarrow> ref \<Rightarrow> graph \<Rightarrow> error + graph" where
  "addNode u r g =
     (if hasNode g u then Inl GraphError
      else Inr (g\<lparr> g_nodes := g_nodes g @ [(u, r)] \<rparr>))"

definition addNode_gen :: "ref \<Rightarrow> graph \<Rightarrow> error + (nid \<times> graph)" where
  "addNode_gen r g =
     (let k = gen_id (g_nextId g) (node_ids g); u = ''_'' @ show_nat k in
      ebind (addNode u r (g\<lparr> g_nextId := k \<rparr>)) (\<lambda>g'. Inr (u, g')))"

text \<open>\<^verbatim>\<open>addEdge(e, u, v, value)\<close> throws when an endpoint is not a node or the id is
  taken.\<close>

definition addEdge :: "eid \<Rightarrow> nid \<Rightarrow> nid \<Rightarrow> ref \<Rightarrow> graph \<Rightarrow> error + graph" where
  "addEdge e u v r g =
     (if \<not> hasNode g u \<or> \<not> hasNode g v \<or> hasEdge g e then Inl GraphError
      else Inr (g\<lparr> g_edges := g_edges g @
          [\<lparr> e_id = e, e_source = u, e_target = v, e_val = r \<rparr>] \<rparr>))"

definition addEdge_gen :: "nid \<Rightarrow> nid \<Rightarrow> ref \<Rightarrow> graph \<Rightarrow> error + graph" where
  "addEdge_gen u v r g =
     (if \<not> hasNode g u \<or> \<not> hasNode g v then Inl GraphError
      else let k = gen_id (g_nextId g) (edge_ids g) in
        addEdge (''_'' @ show_nat k) u v r (g\<lparr> g_nextId := k \<rparr>))"

definition delEdge :: "eid \<Rightarrow> graph \<Rightarrow> graph" where
  "delEdge e g = g\<lparr> g_edges := filter (\<lambda>x. e_id x \<noteq> e) (g_edges g) \<rparr>"

text \<open>\<^verbatim>\<open>delNode(u)\<close> removes the node and every edge incident on it.\<close>

definition delNode :: "nid \<Rightarrow> graph \<Rightarrow> graph" where
  "delNode u g = g\<lparr> g_nodes := filter (\<lambda>p. fst p \<noteq> u) (g_nodes g),
     g_edges := filter (\<lambda>x. e_source x \<noteq> u \<and> e_target x \<noteq> u) (g_edges g) \<rparr>"

definition inEdges :: "graph \<Rightarrow> nid \<Rightarrow> edge_entry list" where
  "inEdges g u = filter (\<lambda>x. e_target x = u) (g_edges g)"

definition outEdges :: "graph \<Rightarrow> nid \<Rightarrow> edge_entry list" where
  "outEdges g u = filter (\<lambda>x. e_source x = u) (g_edges g)"

text \<open>Updating a value object in place.\<close>

definition upd_node :: "ref \<Rightarrow> (node_value \<Rightarrow> node_value) \<Rightarrow> world \<Rightarrow> world" where
  "upd_node r f w = (case nvals w r of None \<Rightarrow> w
     | Some v \<Rightarrow> w\<lparr> nvals := (nvals w)(r \<mapsto> f v) \<rparr>)"

definition upd_edge :: "ref \<Rightarrow> (edge_value \<Rightarrow> edge_value) \<Rightarrow> world \<Rightarrow> world" where
  "upd_edge r f w = (case evals w r of None \<Rightarrow> w
     | Some v \<Rightarrow> w\<lparr> evals := (evals w)(r \<mapsto> f v) \<rparr>)"

section \<open>Build, deduplication, normalization and emission (\<^verbatim>\<open>lib/layout.js\<close>)\<close>

text \<open>\<^verbatim>\<open>initLayoutGraph\<close>: one fresh value object per input node, one per input edge. For an
  undirected input the reverse edge is added with the same value object.\<close>

definition init_node :: "nid \<times> in_node option \<Rightarrow> world \<times> graph \<Rightarrow> error + (world \<times> graph)" where
  "init_node p s = (case p of (u, value) \<Rightarrow> case s of (w, g) \<Rightarrow>
     (let value = (case value of None \<Rightarrow> \<lparr> in_width = None, in_height = None, in_rank = None \<rparr>
                    | Some v \<Rightarrow> v);
          (r, w1) = alloc_node (new_node_value\<lparr> nv_width := in_width value,
                       nv_height := in_height value \<rparr>) w
      in ebind (addNode u r g) (\<lambda>g1.
           Inr (case in_rank value of None \<Rightarrow> w1
                | Some p \<Rightarrow> upd_node r (\<lambda>v. v\<lparr> nv_prefRank := Some p \<rparr>) w1, g1))))"

text \<open>\<^verbatim>\<open>x || d\<close> on a number: the default replaces \<^verbatim>\<open>undefined\<close> and \<open>0\<close>.\<close>

definition or_default :: "'a::zero option \<Rightarrow> 'a \<Rightarrow> 'a" where
  "or_default x d = (case x of None \<Rightarrow> d | Some v \<Rightarrow> if v = 0 then d else v)"

definition init_edge :: "bool \<Rightarrow> eid \<times> nid \<times> nid \<times> in_edge option \<Rightarrow> world \<times> graph
    \<Rightarrow> error + (world \<times> graph)" where
  "init_edge isDirected p s = (case p of (e, u, v, value) \<Rightarrow> case s of (w, g) \<Rightarrow>
     (let value = (case value of None \<Rightarrow> \<lparr> ie_minLen = None, ie_width = None, ie_height = None \<rparr>
                    | Some x \<Rightarrow> x);
          newValue = \<lparr> ev_e = Some e, ev_minLen = Some (or_default (ie_minLen value) 1),
                       ev_width = Some (or_default (ie_width value) 0),
                       ev_height = Some (or_default (ie_height value) 0),
                       ev_points = Some [], ev_reversed = False \<rparr>;
          (r, w1) = alloc_edge newValue w
      in ebind (addEdge_gen u v r g) (\<lambda>g1.
           if \<not> isDirected then ebind (addEdge_gen v u r g1) (\<lambda>g2. Inr (w1, g2))
           else Inr (w1, g1))))"

definition initLayoutGraph :: "in_graph \<Rightarrow> error + (world \<times> graph)" where
  "initLayoutGraph inputGraph =
     ebind (efold init_node (ig_nodes inputGraph) (empty_world, empty_graph True)) (\<lambda>s.
       efold (init_edge (ig_directed inputGraph)) (ig_edges inputGraph) s)"

text \<open>\<^verbatim>\<open>g.eachEdge(function(e, s, t, a) { a.minLen *= 2; })\<close>: once per edge, on the
  edge's value object.\<close>

definition double_minLen :: "graph \<Rightarrow> world \<Rightarrow> world" where
  "double_minLen g w = fold (\<lambda>x. upd_edge (e_val x)
       (\<lambda>v. v\<lparr> ev_minLen := map_option (\<lambda>m. m * 2) (ev_minLen v) \<rparr>)) (g_edges g) w"

text \<open>\<^verbatim>\<open>removeDupEdges\<close>: the second edge met with an original id already seen is
  deleted.\<close>

fun removeDupEdges_loop :: "world \<Rightarrow> edge_entry list \<Rightarrow> eid option list \<Rightarrow> graph \<Rightarrow> graph" where
  "removeDupEdges_loop w [] visited g = g"
| "removeDupEdges_loop w (x # xs) visited g =
     (let ve = (case evals w (e_val x) of None \<Rightarrow> None | Some v \<Rightarrow> ev_e v) in
      removeDupEdges_loop w xs (ve # visited)
        (if ve \<in> set visited then delEdge (e_id x) g else g))"

definition removeDupEdges :: "world \<Rightarrow> graph \<Rightarrow> graph" where
  "removeDupEdges w g = removeDupEdges_loop w (g_edges g) [] g"

text \<open>\<^verbatim>\<open>normalize\<close>. The inner \<^verbatim>\<open>for\<close> loop runs once per rank strictly between the
  source's and the target's; \<open>chain\<close> is that loop, its first argument the number of
  iterations left. The node ids are \<^verbatim>\<open>"_D" + (++dummyCount)\<close>.\<close>

definition dummy_node :: "edge_entry \<Rightarrow> edge_value \<Rightarrow> int \<Rightarrow> int \<Rightarrow> nat \<Rightarrow> node_value" where
  "dummy_node x a targetRank rank i = new_node_value\<lparr>
     nv_width := ev_width a, nv_height := ev_height a,
     nv_edge := Some \<lparr> er_id = e_id x, er_source = e_source x, er_target = e_target x,
                       er_attrs = e_val x \<rparr>,
     nv_rank := Some rank, nv_dummy := True,
     nv_index := (if i = 0 then Some 0 else if rank + 1 = targetRank then Some 1 else None) \<rparr>"

fun chain :: "nat \<Rightarrow> edge_entry \<Rightarrow> int \<Rightarrow> nid \<Rightarrow> int \<Rightarrow> nat \<Rightarrow> nat \<times> world \<times> graph
    \<Rightarrow> error + (nid \<times> nat \<times> world \<times> graph)" where
  "chain 0 x targetRank u rank i s = Inr (u, s)"
| "chain (Suc n) x targetRank u rank i s = (case s of (dummyCount, w, g) \<Rightarrow>
     (case evals w (e_val x) of None \<Rightarrow> Inl TypeError
      | Some a \<Rightarrow>
        (let v = ''_D'' @ show_nat (Suc dummyCount);
             (r, w1) = alloc_node (dummy_node x a targetRank rank i) w
         in ebind (addNode v r g) (\<lambda>g1.
              let (er, w2) = alloc_edge new_edge_value w1 in
              ebind (addEdge_gen u v er g1) (\<lambda>g2.
                chain n x targetRank v (rank + 1) (Suc i) (Suc dummyCount, w2, g2))))))"

definition normalize_edge :: "edge_entry \<Rightarrow> nat \<times> world \<times> graph \<Rightarrow> error + (nat \<times> world \<times> graph)" where
  "normalize_edge x s = (case s of (dummyCount, w, g) \<Rightarrow>
     (case (node_val w g (e_source x), node_val w g (e_target x)) of
        (Some sv, Some tv) \<Rightarrow>
          (case (nv_rank sv, nv_rank tv) of
             (Some sourceRank, Some targetRank) \<Rightarrow>
               if sourceRank + 1 < targetRank then
                 ebind (chain (nat (targetRank - (sourceRank + 1))) x targetRank (e_source x)
                          (sourceRank + 1) 0 s) (\<lambda>(u, dc, w1, g1).
                   let (er, w2) = alloc_edge new_edge_value w1 in
                   ebind (addEdge_gen u (e_target x) er g1) (\<lambda>g2.
                     Inr (dc, w2, delEdge (e_id x) g2)))
               else Inr s
           | _ \<Rightarrow> Inr s)
      | _ \<Rightarrow> Inl TypeError))"

definition normalize :: "world \<times> graph \<Rightarrow> error + (world \<times> graph)" where
  "normalize s = ebind (efold normalize_edge (g_edges (snd s)) (0, s)) (\<lambda>(dc, s'). Inr s')"

text \<open>\<^verbatim>\<open>points[i] = p\<close> on a JavaScript array: writing past the end extends the array and
  leaves holes.\<close>

definition js_set :: "'a option list \<Rightarrow> nat \<Rightarrow> 'a \<Rightarrow> 'a option list" where
  "js_set xs i v = (if i < length xs then xs[i := Some v]
     else xs @ replicate (i - length xs) None @ [Some v])"

text \<open>\<^verbatim>\<open>undoNormalize\<close>: only a node with \<^verbatim>\<open>a.dummy && "index" in a\<close> is handled.\<close>

definition undo_node :: "nid \<times> ref \<Rightarrow> world \<times> graph \<Rightarrow> error + (world \<times> graph)" where
  "undo_node p s = (case p of (u, r) \<Rightarrow> case s of (w, g) \<Rightarrow>
     (case nvals w r of None \<Rightarrow> Inl TypeError
      | Some a \<Rightarrow>
        (case (nv_dummy a, nv_index a) of
           (True, Some idx) \<Rightarrow>
             (case nv_edge a of None \<Rightarrow> Inl TypeError
              | Some edge \<Rightarrow>
                ebind (if \<not> hasEdge g (er_id edge)
                       then addEdge (er_id edge) (er_source edge) (er_target edge) (er_attrs edge) g
                       else Inr g) (\<lambda>g1.
                  (case find_edge g1 (er_id edge) of None \<Rightarrow> Inl TypeError
                   | Some x \<Rightarrow>
                     (case evals w (e_val x) of None \<Rightarrow> Inl TypeError
                      | Some ev \<Rightarrow>
                        (case ev_points ev of None \<Rightarrow> Inl TypeError
                         | Some points \<Rightarrow>
                             Inr (upd_edge (e_val x)
                                    (\<lambda>v. v\<lparr> ev_points := Some (js_set points idx (nv_coords a)) \<rparr>) w,
                                  delNode u g1))))))
         | _ \<Rightarrow> Inr s)))"

definition undoNormalize :: "world \<times> graph \<Rightarrow> error + (world \<times> graph)" where
  "undoNormalize s = efold undo_node (g_nodes (snd s)) s"

text \<open>\<^verbatim>\<open>fixupEdgePoints\<close>: \<^verbatim>\<open>if (a.reversed) a.points.reverse()\<close>.\<close>

definition fixup_edge :: "edge_entry \<Rightarrow> world \<Rightarrow> error + world" where
  "fixup_edge x w = (case evals w (e_val x) of None \<Rightarrow> Inl TypeError
     | Some a \<Rightarrow>
       if ev_reversed a then
         (case ev_points a of None \<Rightarrow> Inl TypeError
          | Some ps \<Rightarrow> Inr (upd_edge (e_val x) (\<lambda>v. v\<lparr> ev_points := Some (rev ps) \<rparr>) w))
       else Inr w)"

definition fixupEdgePoints :: "world \<times> graph \<Rightarrow> error + (world \<times> graph)" where
  "fixupEdgePoints s = ebind (efold fixup_edge (g_edges (snd s)) (fst s)) (\<lambda>w. Inr (w, snd s))"

text \<open>\<^verbatim>\<open>createFinalGraph\<close>: the output graph holds the working graph's value objects; an
  edge is added under \<^verbatim>\<open>value.e\<close> when the value has an \<^verbatim>\<open>e\<close>, which is then deleted
  from the value.\<close>

definition final_edge :: "edge_entry \<Rightarrow> world \<times> graph \<Rightarrow> error + (world \<times> graph)" where
  "final_edge x s = (case s of (w, out) \<Rightarrow>
     (case evals w (e_val x) of None \<Rightarrow> Inl TypeError
      | Some v \<Rightarrow>
        ebind (addEdge (case ev_e v of Some e \<Rightarrow> e | None \<Rightarrow> e_id x)
                 (e_source x) (e_target x) (e_val x) out) (\<lambda>out1.
          Inr (upd_edge (e_val x) (\<lambda>v. v\<lparr> ev_e := None \<rparr>) w, out1))))"

definition createFinalGraph :: "world \<times> graph \<Rightarrow> bool \<Rightarrow> error + (world \<times> graph)" where
  "createFinalGraph s isDirected = (case s of (w, g) \<Rightarrow>
     ebind (efold (\<lambda>(u, r). addNode u r) (g_nodes g)
              ((empty_graph isDirected)\<lparr> g_compoundNodes := g_compoundNodes g,
                                          g_root := g_root g \<rparr>)) (\<lambda>out.
       efold final_edge (g_edges g) (w, out)))"

section \<open>The rank stage (\<^verbatim>\<open>lib/rank.js\<close>)\<close>

text \<open>\<^verbatim>\<open>filterNodes\<close> and \<^verbatim>\<open>copy\<close> of the graph library build a new graph over the same
  value objects. \<^verbatim>\<open>components\<close> lists the node ids of each weakly connected component;
  a component is grown from its first node by adding neighbours, at most once per
  node.\<close>

definition filterNodes :: "(nid \<Rightarrow> bool) \<Rightarrow> graph \<Rightarrow> graph" where
  "filterNodes P g = g\<lparr> g_nodes := filter (\<lambda>p. P (fst p)) (g_nodes g),
     g_edges := filter (\<lambda>x. P (e_source x) \<and> P (e_target x)) (g_edges g),
     g_nextId := 0 \<rparr>"

definition copy_graph :: "graph \<Rightarrow> graph" where
  "copy_graph g = g"

definition adjacent :: "graph \<Rightarrow> nid list \<Rightarrow> nid \<Rightarrow> bool" where
  "adjacent g S u = (\<exists>x \<in> set (g_edges g).
     (e_source x = u \<and> e_target x \<in> set S) \<or> (e_target x = u \<and> e_source x \<in> set S))"

fun grow :: "nat \<Rightarrow> graph \<Rightarrow> nid list \<Rightarrow> nid list" where
  "grow 0 g S = S"
| "grow (Suc n) g S = grow n g (filter (\<lambda>u. u \<in> set S \<or> adjacent g S u) (node_ids g))"

fun components_loop :: "graph \<Rightarrow> nid list \<Rightarrow> nid list list \<Rightarrow> nid list list" where
  "components_loop g [] acc = acc"
| "components_loop g (u # us) acc =
     (if u \<in> set (concat acc) then components_loop g us acc
      else components_loop g us (acc @ [grow (length (g_nodes g)) g [u]]))"

definition components :: "graph \<Rightarrow> nid list list" where
  "components g = components_loop g (node_ids g) []"

text \<open>Modelled from the spec: \<^verbatim>\<open>util.filterNonSubgraphs\<close> is not among the sources. The
  rank stage ranks the nodes that are not clusters; the graphs modelled here are
  plain, so every node qualifies.\<close>

definition filterNonSubgraphs :: "graph \<Rightarrow> nid \<Rightarrow> bool" where
  "filterNonSubgraphs g u = True"

text \<open>Modelled from the spec: \<^verbatim>\<open>util.min\<close> is not among the sources ("subtract the
  minimum rank so ranks start at 0"): the least element of a list of numbers.\<close>

definition util_min :: "int list \<Rightarrow> int option" where
  "util_min xs = (case xs of [] \<Rightarrow> None | y # ys \<Rightarrow> Some (fold min ys y))"

subsection \<open>\<^verbatim>\<open>initRank\<close>\<close>

text \<open>The priority queue is a list of keys with priorities, in insertion order;
  \<^verbatim>\<open>min\<close> is a key of least priority (the first such key), \<^verbatim>\<open>decrease\<close> on a key
  that is not in the queue dereferences \<^verbatim>\<open>undefined\<close>.\<close>

type_synonym pqueue = "(nid \<times> int) list"

definition pq_min :: "pqueue \<Rightarrow> nid \<times> int" where
  "pq_min pq = arg_min_list snd pq"

definition pq_remove :: "nid \<Rightarrow> pqueue \<Rightarrow> pqueue" where
  "pq_remove k pq = filter (\<lambda>p. fst p \<noteq> k) pq"

definition pq_decrease :: "nid \<Rightarrow> pqueue \<Rightarrow> error + pqueue" where
  "pq_decrease k pq =
     (if k \<in> fst ` set pq then Inr (map (\<lambda>p. if fst p = k then (k, snd p - 1) else p) pq)
      else Inl TypeError)"

definition edge_minLen :: "edge_value \<Rightarrow> int" where
  "edge_minLen value = (case ev_minLen value of Some m \<Rightarrow> m | None \<Rightarrow> 1)"

definition updateTargetNode :: "world \<Rightarrow> graph \<Rightarrow> edge_entry
    \<Rightarrow> pqueue \<times> (nid \<Rightarrow> int option) \<Rightarrow> error + (pqueue \<times> (nid \<Rightarrow> int option))" where
  "updateTargetNode w g x s = (case s of (pq, minRank) \<Rightarrow>
     (case node_val w g (e_source x) of None \<Rightarrow> Inl GraphError
      | Some sv \<Rightarrow>
        (case evals w (e_val x) of None \<Rightarrow> Inl TypeError
         | Some value \<Rightarrow>
           (let target = e_target x;
                m = (case (minRank target, nv_rank sv) of
                       (Some a, Some rank) \<Rightarrow> Some (max a (rank + edge_minLen value))
                     | _ \<Rightarrow> None)
            in ebind (pq_decrease target pq) (\<lambda>pq'. Inr (pq', minRank(target := m)))))))"

text \<open>One iteration of the loop \<^verbatim>\<open>while (pq.size() > 0)\<close>, on the queue, the table
  \<^verbatim>\<open>minRank\<close> and the store: the key of least priority is tested, removed and ranked,
  and its out-edges update their targets.\<close>

type_synonym rank_state = "pqueue \<times> (nid \<Rightarrow> int option) \<times> world"

definition initRank_step :: "graph \<Rightarrow> rank_state \<Rightarrow> error + rank_state" where
  "initRank_step g s = (case s of (pq, minRank, w) \<Rightarrow>
     (let minId = fst (pq_min pq) in
      if snd (pq_min pq) > 0 then Inl NotAcyclic
      else
        (case node_ref g minId of None \<Rightarrow> Inl GraphError
         | Some r \<Rightarrow>
           (let w1 = upd_node r (\<lambda>v. v\<lparr> nv_rank := minRank minId \<rparr>) w in
            ebind (efold (updateTargetNode w1 g) (outEdges g minId) (pq_remove minId pq, minRank))
              (\<lambda>(pq', minRank'). Inr (pq', minRank', w1))))))"

text \<open>The loop removes exactly one key per iteration and \<^verbatim>\<open>decrease\<close> removes none, so
  it runs once per key of the queue: the first argument of \<open>initRank_loop\<close> counts the
  iterations left. \<open>initRank_iter k\<close> is the state the loop is in after \<open>k\<close> iterations,
  \<open>initRank_start\<close> the state it starts in: every node queued with the number of its
  in-edges, and 0 as its least rank.\<close>

fun initRank_loop :: "nat \<Rightarrow> graph \<Rightarrow> rank_state \<Rightarrow> error + world" where
  "initRank_loop 0 g s = Inr (snd (snd s))"
| "initRank_loop (Suc n) g s = ebind (initRank_step g s) (initRank_loop n g)"

fun initRank_iter :: "nat \<Rightarrow> graph \<Rightarrow> rank_state \<Rightarrow> error + rank_state" where
  "initRank_iter 0 g s = Inr s"
| "initRank_iter (Suc k) g s = ebind (initRank_step g s) (initRank_iter k g)"

definition initRank_start :: "graph \<Rightarrow> world \<Rightarrow> rank_state" where
  "initRank_start g w =
     (map (\<lambda>u. (u, int (length (inEdges g u)))) (node_ids g),
      (\<lambda>u. if u \<in> set (node_ids g) then Some 0 else None), w)"

definition initRank :: "graph \<Rightarrow> world \<Rightarrow> error + world" where
  "initRank g w = initRank_loop (length (g_nodes g)) g (initRank_start g w)"

subsection \<open>\<^verbatim>\<open>feasibleTree\<close> and the per-component \<^verbatim>\<open>normalize\<close>\<close>

record mle =
  mle_e :: eid
  mle_u :: nid
  mle_v :: nid
  mle_len :: int

definition incidenceId :: "nid \<Rightarrow> nid \<Rightarrow> string" where
  "incidenceId u v = (if u < v then show_nat (length u) @ '':'' @ u @ ''-'' @ v
     else show_nat (length v) @ '':'' @ v @ ''-'' @ u)"

text \<open>The multi-edge table: \<^verbatim>\<open>minLen\<close> (the entries in insertion order) and \<^verbatim>\<open>minLenMap\<close>
  (the same entries by incidence id) hold the same objects, so one association list
  stands for both.\<close>

definition add_minLen :: "world \<Rightarrow> edge_entry \<Rightarrow> (string \<times> mle) list \<Rightarrow> error + (string \<times> mle) list" where
  "add_minLen w x tab =
     (case evals w (e_val x) of None \<Rightarrow> Inl TypeError
      | Some edge \<Rightarrow>
        (let ident = incidenceId (e_source x) (e_target x);
             tab1 = (if ident \<in> fst ` set tab then tab
                     else tab @ [(ident, \<lparr> mle_e = e_id x, mle_u = e_source x,
                                          mle_v = e_target x, mle_len = 0 \<rparr>)])
         in Inr (map (\<lambda>(k, m). if k = ident
                        then (k, m\<lparr> mle_len := max (mle_len m) (edge_minLen edge) \<rparr>)
                        else (k, m)) tab1)))"

text \<open>\<^verbatim>\<open>slack\<close> of an entry; a rank that is \<^verbatim>\<open>undefined\<close> makes it \<^verbatim>\<open>NaN\<close> (\<open>None\<close>).\<close>

definition mle_slack :: "world \<Rightarrow> graph \<Rightarrow> mle \<Rightarrow> int option" where
  "mle_slack w g m =
     (case (node_val w g (mle_u m), node_val w g (mle_v m)) of
        (Some a, Some b) \<Rightarrow>
          (case (nv_rank a, nv_rank b) of
             (Some ra, Some rb) \<Rightarrow> Some (\<bar>ra - rb\<bar> - mle_len m)
           | _ \<Rightarrow> None)
      | _ \<Rightarrow> None)"

text \<open>The result of \<^verbatim>\<open>findMinSlack\<close>: \<^verbatim>\<open>{ mle, treeNode, graphNode, len }\<close>; the running
  minimum \<^verbatim>\<open>eSlack\<close> starts at \<^verbatim>\<open>+Infinity\<close> (\<open>None\<close>).\<close>

record min_slack_result =
  msr_mle :: mle
  msr_treeNode :: nid
  msr_graphNode :: nid
  msr_len :: int

definition findMinSlack_step :: "world \<Rightarrow> graph \<Rightarrow> nid list \<Rightarrow> mle
    \<Rightarrow> min_slack_result option \<times> int option \<Rightarrow> min_slack_result option \<times> int option" where
  "findMinSlack_step w g remaining m s = (case s of (result, eSlack) \<Rightarrow>
     if (mle_u m \<in> set remaining) \<noteq> (mle_v m \<in> set remaining) then
       (case mle_slack w g m of None \<Rightarrow> s
        | Some mleSlack \<Rightarrow>
          if (case eSlack of None \<Rightarrow> True | Some b \<Rightarrow> mleSlack < b) then
            (if mle_u m \<notin> set remaining
             then Some \<lparr> msr_mle = m, msr_treeNode = mle_u m, msr_graphNode = mle_v m,
                          msr_len = mle_len m \<rparr>
             else Some \<lparr> msr_mle = m, msr_treeNode = mle_v m, msr_graphNode = mle_u m,
                          msr_len = - mle_len m \<rparr>,
             Some mleSlack)
          else s)
     else s)"

definition findMinSlack :: "world \<Rightarrow> graph \<Rightarrow> nid list \<Rightarrow> mle list \<Rightarrow> min_slack_result option" where
  "findMinSlack w g remaining minLen =
     fst (fold (findMinSlack_step w g remaining) minLen (None, None))"

text \<open>The loop \<^verbatim>\<open>while (remaining.size() > 0)\<close> removes one node of \<^verbatim>\<open>remaining\<close> per
  iteration; the first argument counts the iterations left. The tree holds the value
  objects of the graph's nodes; a tree edge gets a fresh empty value. When
  \<^verbatim>\<open>findMinSlack\<close> finds no edge its result is \<^verbatim>\<open>undefined\<close> and reading
  \<^verbatim>\<open>result.graphNode\<close> is a type error; \<^verbatim>\<open>g.node\<close> of an id that is not a node of the
  graph throws the library's error, as it does for \<^verbatim>\<open>g.nodes()[0]\<close> of a graph
  without nodes.\<close>

fun feasibleTree_loop :: "nat \<Rightarrow> graph \<Rightarrow> mle list \<Rightarrow> nid list \<times> world \<times> graph
    \<Rightarrow> error + (world \<times> graph)" where
  "feasibleTree_loop 0 g minLen s = Inr (snd s)"
| "feasibleTree_loop (Suc n) g minLen s = (case s of (remaining, w, tree) \<Rightarrow>
     (case findMinSlack w g remaining minLen of None \<Rightarrow> Inl TypeError
      | Some result \<Rightarrow>
        (case (node_ref g (msr_graphNode result), node_val w g (msr_treeNode result)) of
           (Some r, Some tv) \<Rightarrow>
             ebind (addNode (msr_graphNode result) r tree) (\<lambda>tree1.
               let (er, w1) = alloc_edge new_edge_value w in
               ebind (addEdge (mle_e (msr_mle result)) (msr_treeNode result)
                        (msr_graphNode result) er tree1) (\<lambda>tree2.
                 feasibleTree_loop n g minLen
                   (removeAll (msr_graphNode result) remaining,
                    upd_node r (\<lambda>v. v\<lparr> nv_rank := map_option (\<lambda>k. k + msr_len result)
                                                       (nv_rank tv) \<rparr>) w1,
                    tree2)))
         | _ \<Rightarrow> Inl GraphError)))"

definition feasibleTree :: "graph \<Rightarrow> world \<Rightarrow> error + (world \<times> graph)" where
  "feasibleTree g w =
     ebind (efold (add_minLen w) (g_edges g) []) (\<lambda>tab.
       (case g_nodes g of [] \<Rightarrow> Inl GraphError
        | (rt, r) # rest \<Rightarrow>
            feasibleTree_loop (length rest) g (map snd tab)
              (map fst rest, w,
               (empty_graph True)\<lparr> g_nodes := [(rt, r)], g_root := Some rt \<rparr>)))"

text \<open>\<^verbatim>\<open>normalize\<close> of \<^verbatim>\<open>rank.js\<close>: subtract the least rank from every node of the
  component. A rank that is \<^verbatim>\<open>undefined\<close> would make the minimum \<^verbatim>\<open>NaN\<close>.\<close>

definition rank_normalize :: "graph \<Rightarrow> world \<Rightarrow> error + world" where
  "rank_normalize g w =
     (let ranks = map (\<lambda>u. case node_val w g u of None \<Rightarrow> None | Some v \<Rightarrow> nv_rank v) (node_ids g) in
      if None \<in> set ranks then
        Inr (fold (\<lambda>p. upd_node (snd p) (\<lambda>v. v\<lparr> nv_rank := None \<rparr>)) (g_nodes g) w)
      else (case util_min (map the ranks) of
              None \<Rightarrow> Inr w
            | Some m \<Rightarrow> Inr (fold (\<lambda>p. upd_node (snd p)
                  (\<lambda>v. v\<lparr> nv_rank := map_option (\<lambda>k. k - m) (nv_rank v) \<rparr>)) (g_nodes g) w)))"

subsection \<open>The acyclic stage\<close>

text \<open>Modelled from the spec: \<^verbatim>\<open>lib/acyclic.js\<close> is not among the sources. "Mutate W so
  it is a DAG by reversing a feedback arc set; every reversed edge carries
  \<^verbatim>\<open>reversed = true\<close>; self-loops are removed from the working set and re-attached at
  emit time; the choice of feedback set uses a greedy heuristic." The heuristic taken
  here is a depth-first search from each node in turn that reverses an edge leading
  back to a node on the search stack; a self-loop is taken out of the edges and kept
  in \<open>g_selfLoops\<close>. The first argument bounds the depth of the search by the number
  of nodes. (The stage is \<open>acyclic_pass\<close> here, \<open>acyclic\<close> being the library's word for
  a relation without cycles.)\<close>

definition stash_loop :: "edge_entry \<Rightarrow> graph \<Rightarrow> graph" where
  "stash_loop x g = (delEdge (e_id x) g)\<lparr> g_selfLoops := g_selfLoops g @ [x] \<rparr>"

definition reverse_edge :: "edge_entry \<Rightarrow> graph \<Rightarrow> graph" where
  "reverse_edge x g = g\<lparr> g_edges := filter (\<lambda>y. e_id y \<noteq> e_id x) (g_edges g) @
     [\<lparr> e_id = e_id x, e_source = e_target x, e_target = e_source x, e_val = e_val x \<rparr>] \<rparr>"

fun acyclic_dfs :: "nat \<Rightarrow> nid \<Rightarrow> nid list \<times> nid list \<times> world \<times> graph
      \<Rightarrow> nid list \<times> nid list \<times> world \<times> graph"
  and acyclic_edges :: "nat \<Rightarrow> nid \<Rightarrow> edge_entry list \<Rightarrow> nid list \<times> nid list \<times> world \<times> graph
      \<Rightarrow> nid list \<times> nid list \<times> world \<times> graph" where
  "acyclic_dfs 0 u s = s"
| "acyclic_dfs (Suc n) u (visited, onStack, w, g) =
     (if u \<in> set visited then (visited, onStack, w, g)
      else (case acyclic_edges n u (outEdges g u) (u # visited, u # onStack, w, g) of
              (vis, stk, w2, g2) \<Rightarrow> (vis, removeAll u stk, w2, g2)))"
| "acyclic_edges n u [] s = s"
| "acyclic_edges n u (x # xs) (vis, stk, w, g) =
     acyclic_edges n u xs
       (if e_target x = u then (vis, stk, w, stash_loop x g)
        else if e_target x \<in> set stk then
          (vis, stk, upd_edge (e_val x) (\<lambda>v. v\<lparr> ev_reversed := True \<rparr>) w, reverse_edge x g)
        else acyclic_dfs n (e_target x) (vis, stk, w, g))"

definition acyclic_pass :: "world \<times> graph \<Rightarrow> world \<times> graph" where
  "acyclic_pass s = snd (snd (fold (acyclic_dfs (length (g_nodes (snd s)))) (node_ids (snd s))
     ([], [], s)))"

text \<open>Modelled from the spec: \<^verbatim>\<open>acyclic.undo\<close> is not among the sources. "Revert every
  edge marked \<^verbatim>\<open>reversed\<close> back to its original orientation and clear the flag." It is
  the last stage before the output graph is built, and \<^verbatim>\<open>createFinalGraph\<close> adds no
  edge of its own, so this is where the self-loops taken out by the acyclic stage
  are put back among the edges.\<close>

definition undo_edge :: "edge_entry \<Rightarrow> world \<times> graph \<Rightarrow> world \<times> graph" where
  "undo_edge x s = (case s of (w, g) \<Rightarrow>
     (case evals w (e_val x) of None \<Rightarrow> s
      | Some a \<Rightarrow>
        if ev_reversed a
        then (upd_edge (e_val x) (\<lambda>v. v\<lparr> ev_reversed := False \<rparr>) w, reverse_edge x g)
        else s))"

definition attach_loops :: "graph \<Rightarrow> graph" where
  "attach_loops g = g\<lparr> g_edges := g_edges g @ g_selfLoops g, g_selfLoops := [] \<rparr>"

definition acyclic_undo :: "world \<times> graph \<Rightarrow> world \<times> graph" where
  "acyclic_undo s = (case fold undo_edge (g_edges (snd s)) s of (w, g) \<Rightarrow> (w, attach_loops g))"

subsection \<open>\<^verbatim>\<open>combineRanks\<close> and \<^verbatim>\<open>expandRanks\<close>\<close>

text \<open>\<^verbatim>\<open>prefRankToNode\<close> maps a preferred rank to its compound node.\<close>

definition redirect_in :: "pref \<Rightarrow> nid \<Rightarrow> edge_entry \<Rightarrow> graph \<Rightarrow> error + graph" where
  "redirect_in rank newU x g =
     ebind (if rank = PMin then addEdge_gen newU (e_source x) (e_val x) g
            else addEdge_gen (e_source x) newU (e_val x) g) (\<lambda>g1. Inr (delEdge (e_id x) g1))"

definition redirect_out :: "pref \<Rightarrow> nid \<Rightarrow> edge_entry \<Rightarrow> graph \<Rightarrow> error + graph" where
  "redirect_out rank newU x g =
     ebind (if rank = PMax then addEdge_gen (e_target x) newU (e_val x) g
            else addEdge_gen newU (e_target x) (e_val x) g) (\<lambda>g1. Inr (delEdge (e_id x) g1))"

definition compound_for :: "pref \<Rightarrow> (pref \<times> nid) list \<times> world \<times> graph
    \<Rightarrow> error + (nid \<times> (pref \<times> nid) list \<times> world \<times> graph)" where
  "compound_for rank s = (case s of (prefRankToNode, w, g) \<Rightarrow>
     (case map_of prefRankToNode rank of
        Some newU \<Rightarrow> Inr (newU, s)
      | None \<Rightarrow>
        (let (r, w1) = alloc_node (new_node_value\<lparr> nv_originalNodes := Some [] \<rparr>) w in
         ebind (addNode_gen r g) (\<lambda>(newU, g1).
           Inr (newU, prefRankToNode @ [(rank, newU)], w1,
                g1\<lparr> g_compoundNodes := map_option (\<lambda>l. l @ [newU]) (g_compoundNodes g1) \<rparr>)))))"

definition combine_node :: "nid \<times> ref \<Rightarrow> (pref \<times> nid) list \<times> world \<times> graph
    \<Rightarrow> error + ((pref \<times> nid) list \<times> world \<times> graph)" where
  "combine_node p s = (case p of (u, r) \<Rightarrow>
     (case nvals (fst (snd s)) r of None \<Rightarrow> Inl TypeError
      | Some value \<Rightarrow>
        (case nv_prefRank value of None \<Rightarrow> Inr s
         | Some rank \<Rightarrow>
           ebind (compound_for rank s) (\<lambda>(newU, tab, w1, g1).
             ebind (efold (redirect_in rank newU) (inEdges g1 u) g1) (\<lambda>g2.
               ebind (efold (redirect_out rank newU) (outEdges g2 u) g2) (\<lambda>g3.
                 (case node_ref g3 newU of None \<Rightarrow> Inl TypeError
                  | Some cr \<Rightarrow>
                      Inr (tab,
                           upd_node cr (\<lambda>v. v\<lparr> nv_originalNodes :=
                               map_option (\<lambda>l. l @ [u]) (nv_originalNodes v) \<rparr>) w1,
                           delNode u g3))))))))"

definition zero_edge :: "(nid \<Rightarrow> nid \<times> nid) \<Rightarrow> nid \<Rightarrow> world \<times> graph \<Rightarrow> error + (world \<times> graph)" where
  "zero_edge ends u s = (case s of (w, g) \<Rightarrow>
     (let (er, w1) = alloc_edge (new_edge_value\<lparr> ev_minLen := Some 0 \<rparr>) w in
      ebind (addEdge_gen (fst (ends u)) (snd (ends u)) er g) (\<lambda>g1. Inr (w1, g1))))"

definition combineRanks :: "world \<times> graph \<Rightarrow> error + (world \<times> graph)" where
  "combineRanks s = (case s of (w, g) \<Rightarrow>
     if \<not> (\<exists>p \<in> set (g_nodes g). case nvals w (snd p) of None \<Rightarrow> False
                                   | Some v \<Rightarrow> nv_prefRank v \<noteq> None)
     then Inr s
     else
       ebind (efold combine_node (g_nodes g)
                ([], w, (copy_graph g)\<lparr> g_compoundNodes := Some [] \<rparr>)) (\<lambda>(tab, w1, g1).
         ebind (case map_of tab PMin of None \<Rightarrow> Inr (w1, g1)
                | Some minNode \<Rightarrow> efold (zero_edge (\<lambda>u. (minNode, u))) (node_ids g1) (w1, g1))
           (\<lambda>(w2, g2).
             ebind (case map_of tab PMax of None \<Rightarrow> Inr (w2, g2)
                    | Some maxNode \<Rightarrow> efold (zero_edge (\<lambda>u. (u, maxNode))) (node_ids g2) (w2, g2))
               (\<lambda>s3. Inr (acyclic_pass s3)))))"

definition expand_member :: "ref \<Rightarrow> graph \<Rightarrow> nid \<Rightarrow> world \<Rightarrow> error + world" where
  "expand_member cr original v w =
     (case (nvals w cr, node_ref original v) of
        (Some value, Some r) \<Rightarrow> Inr (upd_node r (\<lambda>x. x\<lparr> nv_rank := nv_rank value \<rparr>) w)
      | _ \<Rightarrow> Inl TypeError)"

definition expand_compound :: "graph \<Rightarrow> graph \<Rightarrow> nid \<Rightarrow> world \<Rightarrow> error + world" where
  "expand_compound g original u w =
     (case node_ref g u of None \<Rightarrow> Inl TypeError
      | Some cr \<Rightarrow>
        (case nvals w cr of None \<Rightarrow> Inl TypeError
         | Some value \<Rightarrow>
           (case nv_originalNodes value of None \<Rightarrow> Inl TypeError
            | Some vs \<Rightarrow> efold (expand_member cr original) vs w)))"

definition expandRanks :: "graph \<Rightarrow> graph \<Rightarrow> world \<Rightarrow> error + world" where
  "expandRanks g original w =
     (case g_compoundNodes g of None \<Rightarrow> Inr w
      | Some cs \<Rightarrow> efold (expand_compound g original) cs w)"

subsection \<open>\<^verbatim>\<open>rank\<close>\<close>

text \<open>\<^verbatim>\<open>run\<close> calls \<^verbatim>\<open>rank(g)\<close> with one argument, so \<^verbatim>\<open>useSimplex\<close> is \<^verbatim>\<open>undefined\<close> and the
  network-simplex loop is skipped. The graphs built inside \<^verbatim>\<open>rank\<close> are local to it:
  only the value objects change.\<close>

definition rank_component :: "graph \<Rightarrow> nid list \<Rightarrow> world \<Rightarrow> error + world" where
  "rank_component reduced cmpt w =
     (let subgraph = filterNodes (\<lambda>u. u \<in> set cmpt) reduced in
      ebind (feasibleTree subgraph w) (\<lambda>(w1, spanningTree). rank_normalize subgraph w1))"

definition rank :: "world \<times> graph \<Rightarrow> error + world" where
  "rank s = (case s of (w, g0) \<Rightarrow>
     (let g = filterNodes (filterNonSubgraphs g0) g0 in
      ebind (combineRanks (w, g)) (\<lambda>(w1, reduced).
        ebind (initRank reduced w1) (\<lambda>w2.
          ebind (efold (rank_component reduced) (components reduced) w2) (\<lambda>w3.
            expandRanks reduced g w3)))))"

subsection \<open>\<^verbatim>\<open>inSubtree\<close> and \<^verbatim>\<open>enterEdge\<close>\<close>












section \<open>The pipeline (\<^verbatim>\<open>run\<close>)\<close>

text \<open>Modelled from the spec: \<^verbatim>\<open>lib/order.js\<close> is not among the sources. "Assign
  within-rank positions": a node gets as \<^verbatim>\<open>order\<close> the number of earlier nodes of its
  rank. No node or edge is added or removed.\<close>

definition order_node :: "graph \<Rightarrow> world \<Rightarrow> nat \<Rightarrow> world \<Rightarrow> world" where
  "order_node g w0 i w =
     (let rk = (\<lambda>p. case nvals w0 (snd p) of None \<Rightarrow> None | Some v \<Rightarrow> nv_rank v) in
      upd_node (snd (g_nodes g ! i))
        (\<lambda>v. v\<lparr> nv_order := Some (length (filter (\<lambda>p. rk p = rk (g_nodes g ! i))
                                              (take i (g_nodes g)))) \<rparr>) w)"

definition order :: "world \<times> graph \<Rightarrow> world \<times> graph" where
  "order s = (fold (order_node (snd s) (fst s)) [0 ..< length (g_nodes (snd s))] (fst s), snd s)"

text \<open>Modelled from the spec: \<^verbatim>\<open>lib/position.js\<close> is not among the sources. "Assign (x,y)
  from order + sizes + seps": here \<open>x\<close> is the order, \<open>y\<close> the rank times the rank
  separation, and the four alignment offsets equal \<open>x\<close>. No node or edge is added or
  removed.\<close>

definition position_node :: "config \<Rightarrow> nid \<times> ref \<Rightarrow> world \<Rightarrow> world" where
  "position_node c p w = upd_node (snd p) (\<lambda>v.
     (let px = map_option (\<lambda>k. of_nat k) (nv_order v) in
      v\<lparr> nv_coords := \<lparr> pt_x = px,
              pt_y = map_option (\<lambda>k. of_int k * rankSep c) (nv_rank v),
              pt_ul = px, pt_ur = px, pt_dl = px, pt_dr = px \<rparr> \<rparr>)) w"

definition position_run :: "config \<Rightarrow> world \<times> graph \<Rightarrow> world \<times> graph" where
  "position_run c s = (fold (position_node c) (g_nodes (snd s)) (fst s), snd s)"

text \<open>\<^verbatim>\<open>run\<close>. \<open>run_body\<close> is the \<^verbatim>\<open>try\<close> block: it returns the configuration as the block
  leaves it and either the error thrown or the graph returned. \<open>run\<close> adds the
  \<^verbatim>\<open>finally\<close> block, which sets \<^verbatim>\<open>rankSep\<close> back to the value read on entry. \<open>ranked\<close>
  is the part of the block from the Acyclic stage to the end of the Rank stage,
  \<open>stages\<close> all of it after the doubling of \<^verbatim>\<open>minLen\<close>.\<close>

definition ranked :: "bool \<Rightarrow> world \<times> graph \<Rightarrow> error + (world \<times> graph)" where
  "ranked isDirected s0 =
     (let s1 = acyclic_pass s0;
          s2 = (if \<not> isDirected then (fst s1, removeDupEdges (fst s1) (snd s1)) else s1)
      in ebind (rank s2) (\<lambda>w3. Inr (w3, snd s2)))"

text \<open>The working graph as \<^verbatim>\<open>run\<close> hands it to \<^verbatim>\<open>rank\<close>: after the acyclic stage and,
  for an undirected input, the removal of the duplicate edges.\<close>

definition rank_input :: "bool \<Rightarrow> world \<times> graph \<Rightarrow> world \<times> graph" where
  "rank_input isDirected s0 =
     (let s1 = acyclic_pass s0
      in if \<not> isDirected then (fst s1, removeDupEdges (fst s1) (snd s1)) else s1)"

definition stages :: "config \<Rightarrow> bool \<Rightarrow> world \<times> graph \<Rightarrow> error + (world \<times> graph)" where
  "stages c isDirected s0 =
     ebind (ranked isDirected s0) (\<lambda>s3.
       ebind (normalize s3) (\<lambda>s4.
         ebind (undoNormalize (position_run c (order s4))) (\<lambda>s5.
           ebind (fixupEdgePoints s5) (\<lambda>s6.
             createFinalGraph (acyclic_undo s6) isDirected))))"

definition run_body :: "config \<Rightarrow> in_graph \<Rightarrow> config \<times> (error + (world \<times> graph))" where
  "run_body c inputGraph =
     (case initLayoutGraph inputGraph of
        Inl err \<Rightarrow> (c, Inl err)
      | Inr (w, g) \<Rightarrow>
          if length (g_nodes g) = 0 then (c, Inr (w, g))
          else (let c1 = c\<lparr> rankSep := rankSep c / 2 \<rparr> in
                (c1, stages c1 (ig_directed inputGraph) (double_minLen g w, g))))"

definition run :: "config \<Rightarrow> in_graph \<Rightarrow> config \<times> (error + (world \<times> graph))" where
  "run c inputGraph = (case run_body c inputGraph of (c', r) \<Rightarrow> (c'\<lparr> rankSep := rankSep c \<rparr>, r))"

section \<open>Well-formed inputs, observations and example graphs\<close>

text \<open>A graph of the library has distinct node ids, distinct edge ids, and edges
  between its own nodes.\<close>

definition wf_input :: "in_graph \<Rightarrow> bool" where
  "wf_input ig = (distinct (map fst (ig_nodes ig)) \<and> distinct (map fst (ig_edges ig)) \<and>
     (\<forall>p \<in> set (ig_edges ig). fst (snd p) \<in> fst ` set (ig_nodes ig) \<and>
        fst (snd (snd p)) \<in> fst ` set (ig_nodes ig)))"

definition mk_in :: "bool \<Rightarrow> nid list \<Rightarrow> (eid \<times> nid \<times> nid \<times> int) list \<Rightarrow> in_graph" where
  "mk_in d ns es = \<lparr> ig_directed = d, ig_nodes = map (\<lambda>u. (u, None)) ns,
     ig_edges = map (\<lambda>(e, u, v, m). (e, u, v,
        Some \<lparr> ie_minLen = Some m, ie_width = None, ie_height = None \<rparr>)) es \<rparr>"

text \<open>What is read off a result of \<^verbatim>\<open>run\<close>: the ids of the nodes with \<^verbatim>\<open>dummy = true\<close>,
  the edges, and properties of one edge.\<close>

definition out_dummies :: "error + (world \<times> graph) \<Rightarrow> nid list" where
  "out_dummies r = (case r of Inl err \<Rightarrow> [] | Inr (w, g) \<Rightarrow>
     map fst (filter (\<lambda>p. case nvals w (snd p) of None \<Rightarrow> False | Some v \<Rightarrow> nv_dummy v)
       (g_nodes g)))"

definition out_edges :: "error + (world \<times> graph) \<Rightarrow> (eid \<times> nid \<times> nid) list" where
  "out_edges r = (case r of Inl err \<Rightarrow> [] | Inr (w, g) \<Rightarrow>
     map (\<lambda>x. (e_id x, e_source x, e_target x)) (g_edges g))"

definition out_edge_value :: "error + (world \<times> graph) \<Rightarrow> eid \<Rightarrow> edge_value option" where
  "out_edge_value r e = (case r of Inl err \<Rightarrow> None | Inr (w, g) \<Rightarrow> edge_val w g e)"

definition out_rank :: "error + (world \<times> graph) \<Rightarrow> nid \<Rightarrow> int option" where
  "out_rank r u = (case r of Inl err \<Rightarrow> None | Inr (w, g) \<Rightarrow>
     (case node_val w g u of None \<Rightarrow> None | Some v \<Rightarrow> nv_rank v))"

definition in_edges :: "in_graph \<Rightarrow> (eid \<times> nid \<times> nid) list" where
  "in_edges ig = map (\<lambda>p. (fst p, fst (snd p), fst (snd (snd p)))) (ig_edges ig)"

definition cfg0 :: config where
  "cfg0 = \<lparr> rankSep = 50 \<rparr>"

text \<open>One edge \<open>a \<rightarrow> b\<close> with \<^verbatim>\<open>minLen\<close> 1, 2 and 3.\<close>

definition ex_edge :: "int \<Rightarrow> in_graph" where
  "ex_edge m = mk_in True [''a'', ''b''] [(''ab'', ''a'', ''b'', m)]"



text \<open>A pivot of the network simplex. The graph has the edges \<open>e1: a \<rightarrow> b\<close> (1),
  \<open>e2: a \<rightarrow> c\<close> (2), \<open>e3: a \<rightarrow> d\<close> (2), \<open>e4: b \<rightarrow> c\<close> (1) and \<open>e5: b \<rightarrow> d\<close> (1), with
  \<^verbatim>\<open>minLen\<close> in brackets. \<^verbatim>\<open>initRank\<close> ranks \<open>a, b, c, d\<close> at 0, 1, 2, 2,
  \<^verbatim>\<open>feasibleTree\<close> builds the tree \<open>e1, e2, e3\<close> rooted at \<open>a\<close>, and the postorder
  numbering gives \<open>b, c, d, a\<close> the \<^verbatim>\<open>lim\<close> 0, 1, 2, 3. The tree edge \<open>e1\<close> has cut value
  \<open>-1\<close> and is the leaving edge.\<close>

definition pivot_node :: "int \<Rightarrow> nat \<Rightarrow> nat \<Rightarrow> node_value" where
  "pivot_node r lw lm = new_node_value\<lparr> nv_rank := Some r, nv_low := Some lw, nv_lim := Some lm \<rparr>"

definition pivot_edge :: "eid \<Rightarrow> int \<Rightarrow> edge_value" where
  "pivot_edge e m = \<lparr> ev_e = Some e, ev_minLen = Some m, ev_width = Some 0, ev_height = Some 0,
     ev_points = Some [], ev_reversed = False \<rparr>"

definition ex_pivot_world :: world where
  "ex_pivot_world = \<lparr>
     nvals = map_of [(0, pivot_node 0 0 3), (1, pivot_node 1 0 0), (2, pivot_node 2 1 1),
                     (3, pivot_node 2 2 2)],
     evals = map_of [(0, pivot_edge ''e1'' 1), (1, pivot_edge ''e2'' 2), (2, pivot_edge ''e3'' 2),
                     (3, pivot_edge ''e4'' 1), (4, pivot_edge ''e5'' 1),
                     (5, new_edge_value), (6, new_edge_value), (7, new_edge_value)],
     nfree = 4, efree = 8 \<rparr>"

definition mk_edge :: "eid \<Rightarrow> nid \<Rightarrow> nid \<Rightarrow> ref \<Rightarrow> edge_entry" where
  "mk_edge e u v r = \<lparr> e_id = e, e_source = u, e_target = v, e_val = r \<rparr>"

definition ex_pivot_graph :: graph where
  "ex_pivot_graph = (empty_graph True)\<lparr>
     g_nodes := [(''a'', 0), (''b'', 1), (''c'', 2), (''d'', 3)],
     g_edges := [mk_edge ''e1'' ''a'' ''b'' 0, mk_edge ''e2'' ''a'' ''c'' 1,
                 mk_edge ''e3'' ''a'' ''d'' 2, mk_edge ''e4'' ''b'' ''c'' 3,
                 mk_edge ''e5'' ''b'' ''d'' 4] \<rparr>"



text \<open>A working graph is well formed in a store when its node ids are distinct, its
  nodes have distinct value objects, its edges join nodes of the graph, and every
  value object is in the store. \<open>rank_of\<close> reads a node's rank, \<open>len_of\<close> an edge's
  \<^verbatim>\<open>minLen\<close> the way \<^verbatim>\<open>initRank\<close> reads it (1 when absent), \<open>edge_rel\<close> is the graph as
  a relation.\<close>

definition wf_graph :: "world \<Rightarrow> graph \<Rightarrow> bool" where
  "wf_graph w g =
     (distinct (node_ids g) \<and> distinct (map snd (g_nodes g)) \<and>
      (\<forall>p \<in> set (g_nodes g). nvals w (snd p) \<noteq> None) \<and>
      (\<forall>x \<in> set (g_edges g). e_source x \<in> set (node_ids g) \<and>
          e_target x \<in> set (node_ids g) \<and> evals w (e_val x) \<noteq> None))"

definition rank_of :: "world \<Rightarrow> graph \<Rightarrow> nid \<Rightarrow> int option" where
  "rank_of w g u = (case node_val w g u of None \<Rightarrow> None | Some v \<Rightarrow> nv_rank v)"

definition len_of :: "world \<Rightarrow> edge_entry \<Rightarrow> int" where
  "len_of w x = (case evals w (e_val x) of None \<Rightarrow> 1 | Some v \<Rightarrow> edge_minLen v)"

definition edge_rel :: "graph \<Rightarrow> (nid \<times> nid) set" where
  "edge_rel g = (\<lambda>x. (e_source x, e_target x)) ` set (g_edges g)"

text \<open>The pipeline up to the end of the Rank stage.\<close>

definition run_to_rank :: "in_graph \<Rightarrow> error + (world \<times> graph)" where
  "run_to_rank inputGraph =
     (case initLayoutGraph inputGraph of
        Inl err \<Rightarrow> Inl err
      | Inr (w, g) \<Rightarrow> ranked (ig_directed inputGraph) (double_minLen g w, g))"

text \<open>Four nodes in the order \<open>c, a, b, d\<close> and the edges \<open>a \<rightarrow> d\<close>, \<open>a \<rightarrow> b\<close>, \<open>b \<rightarrow> d\<close>
  (\<^verbatim>\<open>minLen\<close> 2) and \<open>c \<rightarrow> d\<close>.\<close>

definition ex_four :: in_graph where
  "ex_four = mk_in True [''c'', ''a'', ''b'', ''d'']
     [(''ad'', ''a'', ''d'', 1), (''ab'', ''a'', ''b'', 1), (''bd'', ''b'', ''d'', 2),
      (''cd'', ''c'', ''d'', 1)]"

text \<open>The working graph of \<open>ex_four\<close> as \<^verbatim>\<open>run\<close> hands it to \<^verbatim>\<open>rank\<close>.\<close>

definition ex_four_work :: "world \<times> graph" where
  "ex_four_work = (case projr (initLayoutGraph ex_four) of (w, g) \<Rightarrow>
     rank_input True (double_minLen g w, g))"

text \<open>An edge \<open>x \<rightarrow> m\<close> into a node with the preferred rank \<^verbatim>\<open>"min"\<close>.\<close>

definition ex_min :: in_graph where
  "ex_min = \<lparr> ig_directed = True,
     ig_nodes = [(''x'', None),
                 (''m'', Some \<lparr> in_width = None, in_height = None, in_rank = Some PMin \<rparr>)],
     ig_edges = [(''xm'', ''x'', ''m'', None)] \<rparr>"

text \<open>Two nodes of the preferred rank 1 and one without.\<close>

definition ex_same :: in_graph where
  "ex_same = \<lparr> ig_directed = True,
     ig_nodes = [(''u'', Some \<lparr> in_width = None, in_height = None, in_rank = Some (PInt 1) \<rparr>),
                 (''x'', None),
                 (''v'', Some \<lparr> in_width = None, in_height = None, in_rank = Some (PInt 1) \<rparr>)],
     ig_edges = [(''ux'', ''u'', ''x'', None), (''xv'', ''x'', ''v'', None)] \<rparr>"

text \<open>A graph with the cycle \<open>b \<rightarrow> c \<rightarrow> b\<close> behind the edge \<open>a \<rightarrow> b\<close>, over the value
  objects of the pivot example. The first key \<^verbatim>\<open>initRank\<close> takes from the queue is \<open>a\<close>,
  with priority 0.\<close>

definition ex_cycle_graph :: graph where
  "ex_cycle_graph = (empty_graph True)\<lparr>
     g_nodes := [(''a'', 0), (''b'', 1), (''c'', 2)],
     g_edges := [mk_edge ''e1'' ''a'' ''b'' 0, mk_edge ''e2'' ''b'' ''c'' 1,
                 mk_edge ''e3'' ''c'' ''b'' 2] \<rparr>"















section \<open>The pipeline on a graph without nodes\<close>

lemma initLayoutGraph_no_nodes:
  assumes "wf_input ig" and "ig_nodes ig = []"
  shows "initLayoutGraph ig = Inr (empty_world, empty_graph True)"
proof -
  have "ig_edges ig = []"
  proof (cases "ig_edges ig")
    case Nil
    then show ?thesis .
  next
    case (Cons p ps)
    then have "p \<in> set (ig_edges ig)" by simp
    with assms(1) have "fst (snd p) \<in> fst ` set (ig_nodes ig)"
      unfolding wf_input_def by blast
    with assms(2) show ?thesis by simp
  qed
  with assms(2) show ?thesis
    by (simp add: initLayoutGraph_def ebind_def)
qed

text \<open>
  C10. For an input graph with no nodes, \<^verbatim>\<open>run\<close> returns right after the Build stage:
  the \<^verbatim>\<open>try\<close> block leaves with the graph \<^verbatim>\<open>initLayoutGraph\<close> built, which is empty, no
  later stage has touched the store or the configuration (the rank separation was not
  even halved), and the graph returned is the internal directed working graph,
  whether the input was directed or not.
\<close>

theorem run_no_nodes:
  assumes "wf_input ig" and "ig_nodes ig = []"
  shows "run_body c ig = (c, initLayoutGraph ig)
       \<and> run c ig = (c, Inr (empty_world, empty_graph True))
       \<and> g_directed (empty_graph True) \<and> g_nodes (empty_graph True) = []
       \<and> g_edges (empty_graph True) = []"
proof -
  have i: "initLayoutGraph ig = Inr (empty_world, empty_graph True)"
    using assms by (rule initLayoutGraph_no_nodes)
  have b: "run_body c ig = (c, initLayoutGraph ig)"
    by (simp add: run_body_def i empty_graph_def)
  have r: "run c ig = (c, Inr (empty_world, empty_graph True))"
    by (simp add: run_def b i)
  show ?thesis using b r by (simp add: empty_graph_def)
qed

theorem run_no_nodes_witness:
  "wf_input (mk_in False [] []) \<and> ig_nodes (mk_in False [] []) = []
   \<and> \<not> ig_directed (mk_in False [] [])
   \<and> run cfg0 (mk_in False [] []) = (cfg0, Inr (empty_world, empty_graph True))
   \<and> g_directed (empty_graph True)"
proof -
  have w: "wf_input (mk_in False [] [])" by (simp add: wf_input_def mk_in_def)
  have n: "ig_nodes (mk_in False [] []) = []" by (simp add: mk_in_def)
  show ?thesis using run_no_nodes [OF w n, of cfg0] w n by (simp add: mk_in_def)
qed

section \<open>Dummy nodes that outlive the pipeline\<close>

text \<open>
  C2. The claim is that no node of the output graph has \<^verbatim>\<open>dummy = true\<close>. The code
  does not deliver this: \<^verbatim>\<open>undoNormalize\<close> deletes only the dummy nodes that carry an
  \<^verbatim>\<open>index\<close>, and \<^verbatim>\<open>normalize\<close> gives an index to the first and the last dummy of a
  chain only. For the input \<open>a \<rightarrow> b\<close> with \<^verbatim>\<open>minLen = 2\<close> (doubled to 4, three dummies)
  the output holds the interior dummy node \<^verbatim>\<open>_D2\<close>.
\<close>

theorem run_leaves_dummy:
  "out_dummies (snd (run cfg0 (ex_edge 2))) = [''_D2'']"
  by code_simp

section \<open>The scoped configuration changes of \<^verbatim>\<open>run\<close>\<close>




section \<open>The edges of the output graph\<close>

text \<open>
  C3. The claim is that the output graph has exactly the input's edges, under their
  original ids and with the input's orientation. The code does not deliver this for
  an edge whose chain has four or more dummies: the interior dummies survive
  \<^verbatim>\<open>undoNormalize\<close> (see C2) and with them the dummy edges between two interior
  dummies, which \<^verbatim>\<open>createFinalGraph\<close> emits under their generated ids. For the input
  \<open>a \<rightarrow> b\<close> with \<^verbatim>\<open>minLen = 3\<close> the output holds three edges.
\<close>

theorem run_emits_dummy_edges:
  "in_edges (ex_edge 3) = [(''ab'', ''a'', ''b'')]
   \<and> out_edges (snd (run cfg0 (ex_edge 3))) =
       [(''_4'', ''_D2'', ''_D3''), (''_5'', ''_D3'', ''_D4''), (''ab'', ''a'', ''b'')]"
  by code_simp

section \<open>The entering edge of a pivot\<close>














text \<open>The ranks and the tree of the pivot are the ones \<^verbatim>\<open>initRank\<close> and \<^verbatim>\<open>feasibleTree\<close>
  compute for the graph.\<close>

lemma ex_pivot_reached:
  "out_edges (ebind (initRank ex_pivot_graph ex_pivot_world) (feasibleTree ex_pivot_graph)) =
     [(''e1'', ''a'', ''b''), (''e2'', ''a'', ''c''), (''e3'', ''a'', ''d'')]
   \<and> map (out_rank (ebind (initRank ex_pivot_graph ex_pivot_world) (feasibleTree ex_pivot_graph)))
       [''a'', ''b'', ''c'', ''d''] = [Some 0, Some 1, Some 2, Some 2]"
  by code_simp

section \<open>The initial ranking\<close>

subsection \<open>The queue and the table of least ranks\<close>

lemma pq_decrease_keys:
  assumes "k \<in> fst ` set pq"
  shows "\<exists>pq'. pq_decrease k pq = Inr pq' \<and> map fst pq' = map fst pq \<and>
     (\<forall>j. map_of pq' j = (if j = k then map_option (\<lambda>p. p - 1) (map_of pq j) else map_of pq j))"
proof -
  let ?f = "\<lambda>p. if fst p = k then (k, snd p - 1) else p"
  have keys: "map fst (map ?f pq) = map fst pq"
    by (induction pq) auto
  have vals: "map_of (map ?f pq) j =
      (if j = k then map_option (\<lambda>p. p - 1) (map_of pq j) else map_of pq j)" for j
    by (induction pq) auto
  from assms keys vals show ?thesis
    by (simp add: pq_decrease_def)
qed

lemma fold_max_ge: "(a::int) \<le> fold max ys a"
  by (induction ys arbitrary: a) (auto intro: order_trans [OF max.cobounded2])

lemma fold_max_mem: "(y::int) \<in> set ys \<Longrightarrow> y \<le> fold max ys a"
proof (induction ys arbitrary: a)
  case Nil
  then show ?case by simp
next
  case (Cons z zs)
  show ?case
  proof (cases "y = z")
    case True
    have "z \<le> max z a" by simp
    also have "\<dots> \<le> fold max zs (max z a)" by (rule fold_max_ge)
    finally show ?thesis using True by simp
  next
    case False
    with Cons.prems have "y \<in> set zs" by simp
    from Cons.IH [OF this] show ?thesis by simp
  qed
qed

text \<open>The effect of \<^verbatim>\<open>updateTargetNode\<close> over a list of edges that all leave a node of
  rank \<open>r0\<close>, when every target is still in the queue.\<close>

lemma updateTargetNode_fold:
  assumes "\<forall>x \<in> set xs. e_target x \<in> fst ` set pq \<and> evals w (e_val x) \<noteq> None \<and>
      rank_of w g (e_source x) = Some r0 \<and> mr (e_target x) \<noteq> None"
  shows "\<exists>pq' mr'. efold (updateTargetNode w g) xs (pq, mr) = Inr (pq', mr') \<and>
     map fst pq' = map fst pq \<and>
     (\<forall>j. map_of pq' j =
        map_option (\<lambda>p. p - int (length (filter (\<lambda>x. e_target x = j) xs))) (map_of pq j)) \<and>
     (\<forall>u. mr' u = map_option
        (fold max (map (\<lambda>x. r0 + len_of w x) (filter (\<lambda>x. e_target x = u) xs))) (mr u))"
  using assms
proof (induction xs arbitrary: pq mr)
  case Nil
  show ?case by (simp add: option.map_ident)
next
  case (Cons x xs)
  from Cons.prems obtain ev a where
    t: "e_target x \<in> fst ` set pq" and v: "evals w (e_val x) = Some ev"
    and r: "rank_of w g (e_source x) = Some r0" and a: "mr (e_target x) = Some a"
    by auto
  from r obtain sv where sv: "node_val w g (e_source x) = Some sv" "nv_rank sv = Some r0"
    by (auto simp: rank_of_def split: option.splits)
  from pq_decrease_keys [OF t] obtain pq1 where
    d: "pq_decrease (e_target x) pq = Inr pq1" and k1: "map fst pq1 = map fst pq"
    and m1: "\<forall>j. map_of pq1 j =
       (if j = e_target x then map_option (\<lambda>p. p - 1) (map_of pq j) else map_of pq j)"
    by blast
  let ?mr1 = "mr(e_target x := Some (max a (r0 + edge_minLen ev)))"
  have step: "updateTargetNode w g x (pq, mr) = Inr (pq1, ?mr1)"
    by (simp add: updateTargetNode_def sv v a d ebind_def)
  have keys1: "fst ` set pq1 = fst ` set pq"
    using k1 by (metis set_map)
  have "\<forall>y \<in> set xs. e_target y \<in> fst ` set pq1 \<and> evals w (e_val y) \<noteq> None \<and>
      rank_of w g (e_source y) = Some r0 \<and> ?mr1 (e_target y) \<noteq> None"
    using Cons.prems keys1 by auto
  from Cons.IH [OF this] obtain pq' mr' where
    f: "efold (updateTargetNode w g) xs (pq1, ?mr1) = Inr (pq', mr')"
    and k: "map fst pq' = map fst pq1"
    and m: "\<forall>j. map_of pq' j =
        map_option (\<lambda>p. p - int (length (filter (\<lambda>x. e_target x = j) xs))) (map_of pq1 j)"
    and q: "\<forall>u. mr' u = map_option
        (fold max (map (\<lambda>x. r0 + len_of w x) (filter (\<lambda>x. e_target x = u) xs))) (?mr1 u)"
    by blast
  have len: "len_of w x = edge_minLen ev"
    by (simp add: len_of_def v)
  have m': "map_of pq' j =
      map_option (\<lambda>p. p - int (length (filter (\<lambda>y. e_target y = j) (x # xs)))) (map_of pq j)" for j
    using m m1 by (cases "map_of pq j") (auto simp: option.map_comp comp_def)
  have q': "mr' u = map_option
      (fold max (map (\<lambda>y. r0 + len_of w y) (filter (\<lambda>y. e_target y = u) (x # xs)))) (mr u)" for u
    using q a len by (cases "mr u") (auto simp: max.commute)
  show ?case
    using step f k k1 m' q' by simp
qed

subsection \<open>Value objects of a well-formed graph\<close>

lemma evals_upd_node [simp]: "evals (upd_node r f w) = evals w"
  by (simp add: upd_node_def split: option.splits)

lemma nvals_upd_node:
  "nvals (upd_node r f w) r' = (if r' = r then map_option f (nvals w r) else nvals w r')"
  by (simp add: upd_node_def split: option.splits)

lemma len_of_upd_node [simp]: "len_of (upd_node r f w) x = len_of w x"
  by (simp add: len_of_def)

lemma wf_graph_upd_node: "wf_graph w g \<Longrightarrow> wf_graph (upd_node r f w) g"
  by (auto simp: wf_graph_def nvals_upd_node)

lemma wf_node_ref:
  assumes "wf_graph w g" and "u \<in> set (node_ids g)"
  shows "\<exists>r v. node_ref g u = Some r \<and> nvals w r = Some v"
proof -
  from assms(2) obtain r where r: "map_of (g_nodes g) u = Some r"
    by (cases "map_of (g_nodes g) u") (auto simp: node_ids_def map_of_eq_None_iff)
  then have "(u, r) \<in> set (g_nodes g)" by (rule map_of_SomeD)
  with assms(1) have "nvals w r \<noteq> None" by (auto simp: wf_graph_def)
  with r show ?thesis by (auto simp: node_ref_def)
qed

lemma wf_node_ref_inj:
  assumes "wf_graph w g" and "node_ref g u = Some r" and "node_ref g v = Some r"
  shows "u = v"
proof -
  from assms have "(u, r) \<in> set (g_nodes g)" "(v, r) \<in> set (g_nodes g)"
    by (auto simp: node_ref_def dest: map_of_SomeD)
  moreover from assms(1) have "inj_on snd (set (g_nodes g))"
    by (simp add: wf_graph_def distinct_map)
  ultimately have "(u, r) = (v, r)"
    by (rule_tac inj_onD [where f = snd]) simp_all
  then show ?thesis by simp
qed

lemma rank_of_upd_node:
  assumes "wf_graph w g" and "node_ref g u = Some r" and "v \<in> set (node_ids g)"
  shows "rank_of (upd_node r (\<lambda>x. x\<lparr> nv_rank := q \<rparr>) w) g v =
     (if v = u then q else rank_of w g v)"
proof -
  from wf_node_ref [OF assms(1,3)] obtain r' nv where
    v: "node_ref g v = Some r'" "nvals w r' = Some nv" by blast
  show ?thesis
  proof (cases "v = u")
    case True
    with v assms(2) show ?thesis
      by (simp add: rank_of_def node_val_def nvals_upd_node)
  next
    case False
    with wf_node_ref_inj [OF assms(1,2)] v have "r' \<noteq> r" by auto
    with v False show ?thesis
      by (simp add: rank_of_def node_val_def nvals_upd_node)
  qed
qed

subsection \<open>The queue operations\<close>

lemma pq_min_least:
  assumes "pq \<noteq> []"
  shows "pq_min pq \<in> set pq" and "\<forall>p \<in> set pq. snd (pq_min pq) \<le> snd p"
proof -
  show "pq_min pq \<in> set pq"
    unfolding pq_min_def using assms by (rule arg_min_list_in)
  have "snd (pq_min pq) = Min (snd ` set pq)"
    unfolding pq_min_def using assms by (rule f_arg_min_list_f)
  then show "\<forall>p \<in> set pq. snd (pq_min pq) \<le> snd p"
    by simp
qed

lemma pq_remove_keys: "fst ` set (pq_remove k pq) = fst ` set pq - {k}"
  by (auto simp: pq_remove_def)

lemma pq_remove_distinct: "distinct (map fst pq) \<Longrightarrow> distinct (map fst (pq_remove k pq))"
  by (simp add: pq_remove_def distinct_map_filter)

lemma pq_remove_map_of: "j \<noteq> k \<Longrightarrow> map_of (pq_remove k pq) j = map_of pq j"
  unfolding pq_remove_def by (induction pq) auto

lemma pq_remove_length:
  "distinct (map fst pq) \<Longrightarrow> k \<in> fst ` set pq \<Longrightarrow> Suc (length (pq_remove k pq)) = length pq"
proof (induction pq)
  case Nil
  then show ?case by simp
next
  case (Cons p pq)
  show ?case
  proof (cases "fst p = k")
    case True
    with Cons.prems have "k \<notin> fst ` set pq" by auto
    then have "filter (\<lambda>q. fst q \<noteq> k) pq = pq"
      by (auto simp: filter_id_conv)
    with True show ?thesis by (simp add: pq_remove_def)
  next
    case False
    with Cons show ?thesis by (auto simp: pq_remove_def)
  qed
qed

lemma count_split:
  "int (length (filter P xs)) - int (length (filter (\<lambda>x. P x \<and> Q x) xs)) =
   int (length (filter (\<lambda>x. P x \<and> \<not> Q x) xs))"
  by (induction xs) auto

subsection \<open>The invariant of the ranking loop\<close>

text \<open>With \<open>P\<close> the keys still in the queue: the priority of a key is the number of its
  in-edges that leave a node in \<open>P\<close>; every node has an entry in the table of least
  ranks; a node outside \<open>P\<close> has that entry as its rank; an edge that leaves a node
  outside \<open>P\<close> is accounted for in the entry of its target; and no edge leads from \<open>P\<close>
  to a node outside \<open>P\<close>.\<close>

definition kahn_inv :: "graph \<Rightarrow> pqueue \<times> (nid \<Rightarrow> int option) \<times> world \<Rightarrow> bool" where
  "kahn_inv g s = (case s of (pq, mr, w) \<Rightarrow>
     distinct (map fst pq) \<and> fst ` set pq \<subseteq> set (node_ids g) \<and>
     (\<forall>k \<in> fst ` set pq. map_of pq k = Some (int (length (filter
          (\<lambda>x. e_target x = k \<and> e_source x \<in> fst ` set pq) (g_edges g))))) \<and>
     (\<forall>u \<in> set (node_ids g). mr u \<noteq> None) \<and>
     (\<forall>u \<in> set (node_ids g). u \<notin> fst ` set pq \<longrightarrow> rank_of w g u = mr u) \<and>
     (\<forall>x \<in> set (g_edges g). e_source x \<notin> fst ` set pq \<longrightarrow>
          (\<exists>a b. rank_of w g (e_source x) = Some a \<and> mr (e_target x) = Some b \<and>
                 a + len_of w x \<le> b)) \<and>
     (\<forall>x \<in> set (g_edges g). e_target x \<notin> fst ` set pq \<longrightarrow> e_source x \<notin> fst ` set pq) \<and>
     wf_graph w g)"

lemma kahn_inv_init:
  assumes "wf_graph w g"
  shows "kahn_inv g (initRank_start g w)"
proof -
  let ?pq = "map (\<lambda>u. (u, int (length (inEdges g u)))) (node_ids g)"
  have keys: "fst ` set ?pq = set (node_ids g)"
    by (auto simp: image_iff)
  have fst: "map fst ?pq = node_ids g"
    by (simp add: comp_def)
  have prio: "map_of ?pq k = Some (int (length (inEdges g k)))" if "k \<in> set (node_ids g)" for k
    using that by (simp add: map_of_map_restrict)
  have cnt: "inEdges g k = filter (\<lambda>x. e_target x = k \<and> e_source x \<in> set (node_ids g)) (g_edges g)"
    for k
    unfolding inEdges_def using assms by (auto simp: wf_graph_def intro: filter_cong)
  from assms have d: "distinct (node_ids g)" by (simp add: wf_graph_def)
  from assms have src: "\<forall>x \<in> set (g_edges g). e_source x \<in> set (node_ids g)"
    and tgt: "\<forall>x \<in> set (g_edges g). e_target x \<in> set (node_ids g)"
    by (simp_all add: wf_graph_def)
  show ?thesis
    unfolding initRank_start_def kahn_inv_def prod.case keys fst
    using d prio cnt src tgt assms by auto
qed

lemma kahn_step:
  assumes inv: "kahn_inv g (pq, mr, w)" and ne: "pq \<noteq> []" and le: "snd (pq_min pq) \<le> 0"
  shows "\<exists>r pq' mr'. node_ref g (fst (pq_min pq)) = Some r \<and>
     efold (updateTargetNode (upd_node r (\<lambda>v. v\<lparr> nv_rank := mr (fst (pq_min pq)) \<rparr>) w) g)
       (outEdges g (fst (pq_min pq))) (pq_remove (fst (pq_min pq)) pq, mr) = Inr (pq', mr') \<and>
     kahn_inv g (pq', mr', upd_node r (\<lambda>v. v\<lparr> nv_rank := mr (fst (pq_min pq)) \<rparr>) w) \<and>
     Suc (length pq') = length pq \<and>
     fst ` set pq' = fst ` set pq - {fst (pq_min pq)} \<and>
     (\<forall>x \<in> set (g_edges g). e_target x = fst (pq_min pq) \<longrightarrow> e_source x \<notin> fst ` set pq)"
proof -
  let ?P = "fst ` set pq"
  let ?E = "g_edges g"
  let ?m = "fst (pq_min pq)"
  from inv have d: "distinct (map fst pq)" and sub: "?P \<subseteq> set (node_ids g)"
    and k2: "\<forall>k \<in> ?P. map_of pq k = Some (int (length (filter
          (\<lambda>x. e_target x = k \<and> e_source x \<in> ?P) ?E)))"
    and k3: "\<forall>u \<in> set (node_ids g). mr u \<noteq> None"
    and k4: "\<forall>u \<in> set (node_ids g). u \<notin> ?P \<longrightarrow> rank_of w g u = mr u"
    and k5: "\<forall>x \<in> set ?E. e_source x \<notin> ?P \<longrightarrow>
          (\<exists>a b. rank_of w g (e_source x) = Some a \<and> mr (e_target x) = Some b \<and>
                 a + len_of w x \<le> b)"
    and k6: "\<forall>x \<in> set ?E. e_target x \<notin> ?P \<longrightarrow> e_source x \<notin> ?P"
    and wf: "wf_graph w g"
    unfolding kahn_inv_def prod.case by blast+
  from wf have ends: "\<forall>x \<in> set ?E. e_source x \<in> set (node_ids g) \<and>
      e_target x \<in> set (node_ids g) \<and> evals w (e_val x) \<noteq> None"
    by (simp add: wf_graph_def)
  from pq_min_least(1) [OF ne] have min_in: "pq_min pq \<in> set pq" .
  then have mP: "?m \<in> ?P" by (rule imageI)
  with sub have mN: "?m \<in> set (node_ids g)" by blast
  from d min_in have "map_of pq ?m = Some (snd (pq_min pq))"
    by (metis map_of_is_SomeI prod.collapse)
  with k2 mP have "snd (pq_min pq) = int (length (filter
          (\<lambda>x. e_target x = ?m \<and> e_source x \<in> ?P) ?E))"
    by auto
  with le have "filter (\<lambda>x. e_target x = ?m \<and> e_source x \<in> ?P) ?E = []"
    by simp
  then have no_in: "\<forall>x \<in> set ?E. e_target x = ?m \<longrightarrow> e_source x \<notin> ?P"
    by (simp add: filter_empty_conv)
  from wf_node_ref [OF wf mN] obtain r where r: "node_ref g ?m = Some r" by blast
  from k3 mN obtain r0 where r0: "mr ?m = Some r0" by auto
  let ?w1 = "upd_node r (\<lambda>v. v\<lparr> nv_rank := mr ?m \<rparr>) w"
  have rank1: "rank_of ?w1 g v = (if v = ?m then Some r0 else rank_of w g v)"
    if "v \<in> set (node_ids g)" for v
    using rank_of_upd_node [OF wf r that, of "mr ?m"] r0 by simp
  have wf1: "wf_graph ?w1 g" using wf by (rule wf_graph_upd_node)
  let ?pq0 = "pq_remove ?m pq"
  let ?out = "outEdges g ?m"
  have keys0: "fst ` set ?pq0 = ?P - {?m}" by (rule pq_remove_keys)
  have out: "x \<in> set ?E \<and> e_source x = ?m" if "x \<in> set ?out" for x
    using that by (simp add: outEdges_def)
  have tgt: "e_target x \<in> ?P - {?m}" if "x \<in> set ?out" for x
  proof -
    from out [OF that] have a: "x \<in> set ?E" "e_source x = ?m" by simp_all
    from k6 a mP have "e_target x \<in> ?P" by metis
    moreover from no_in a mP have "e_target x \<noteq> ?m" by metis
    ultimately show ?thesis by simp
  qed
  have "\<forall>x \<in> set ?out. e_target x \<in> fst ` set ?pq0 \<and> evals ?w1 (e_val x) \<noteq> None \<and>
      rank_of ?w1 g (e_source x) = Some r0 \<and> mr (e_target x) \<noteq> None"
  proof
    fix x assume x: "x \<in> set ?out"
    from out [OF x] ends have "evals w (e_val x) \<noteq> None" "e_target x \<in> set (node_ids g)"
      by auto
    moreover from out [OF x] mN have "rank_of ?w1 g (e_source x) = Some r0"
      by (simp add: rank1)
    ultimately show "e_target x \<in> fst ` set ?pq0 \<and> evals ?w1 (e_val x) \<noteq> None \<and>
      rank_of ?w1 g (e_source x) = Some r0 \<and> mr (e_target x) \<noteq> None"
      using tgt [OF x] keys0 k3 by simp
  qed
  from updateTargetNode_fold [OF this] obtain pq' mr' where
    f: "efold (updateTargetNode ?w1 g) ?out (?pq0, mr) = Inr (pq', mr')"
    and kf: "map fst pq' = map fst ?pq0"
    and pf: "\<forall>j. map_of pq' j =
        map_option (\<lambda>p. p - int (length (filter (\<lambda>x. e_target x = j) ?out))) (map_of ?pq0 j)"
    and mf: "\<forall>u. mr' u = map_option
        (fold max (map (\<lambda>x. r0 + len_of ?w1 x) (filter (\<lambda>x. e_target x = u) ?out))) (mr u)"
    by blast
  have keys': "fst ` set pq' = ?P - {?m}"
    using kf keys0 by (metis set_map)
  have no_tgt: "filter (\<lambda>x. e_target x = u) ?out = []" if "u \<notin> ?P - {?m}" for u
    using tgt that by (auto simp: filter_empty_conv)
  have mr_same: "mr' u = mr u" if "u \<notin> ?P - {?m}" for u
    using mf no_tgt [OF that] by (cases "mr u") simp_all
  have mr_ge: "\<exists>b'. mr' u = Some b' \<and> b \<le> b'" if "mr u = Some b" for u b
    using mf that fold_max_ge by simp
  have c1: "distinct (map fst pq')"
    using kf pq_remove_distinct [OF d] by simp
  have c2: "fst ` set pq' \<subseteq> set (node_ids g)"
    using keys' sub by auto
  have c3: "\<forall>k \<in> fst ` set pq'. map_of pq' k = Some (int (length (filter
          (\<lambda>x. e_target x = k \<and> e_source x \<in> fst ` set pq') ?E)))"
  proof
    fix k assume "k \<in> fst ` set pq'"
    with keys' have kP: "k \<in> ?P" and km: "k \<noteq> ?m" by auto
    have a: "map_of ?pq0 k = Some (int (length (filter
          (\<lambda>x. e_target x = k \<and> e_source x \<in> ?P) ?E)))"
      using bspec [OF k2 kP] pq_remove_map_of [OF km, of pq] by simp
    have b: "filter (\<lambda>x. e_target x = k) ?out =
        filter (\<lambda>x. (e_target x = k \<and> e_source x \<in> ?P) \<and> e_source x = ?m) ?E"
    proof -
      have "(e_source x = m \<and> e_target x = k) =
          ((e_target x = k \<and> e_source x \<in> ?P) \<and> e_source x = m)" if "m \<in> ?P" for m x
        using that by blast
      from this [OF mP] have "(\<lambda>x. e_source x = ?m \<and> e_target x = k) =
          (\<lambda>x. (e_target x = k \<and> e_source x \<in> ?P) \<and> e_source x = ?m)"
        by (rule ext)
      then show ?thesis
        unfolding outEdges_def filter_filter by (rule arg_cong)
    qed
    have c: "filter (\<lambda>x. e_target x = k \<and> e_source x \<in> fst ` set pq') ?E =
        filter (\<lambda>x. (e_target x = k \<and> e_source x \<in> ?P) \<and> \<not> e_source x = ?m) ?E"
      unfolding keys' by (rule filter_cong [OF refl]) blast
    from pf a have "map_of pq' k = Some (int (length (filter
          (\<lambda>x. e_target x = k \<and> e_source x \<in> ?P) ?E)) -
          int (length (filter (\<lambda>x. e_target x = k) ?out)))"
      by simp
    also have "\<dots> = Some (int (length (filter
          (\<lambda>x. (e_target x = k \<and> e_source x \<in> ?P) \<and> \<not> e_source x = ?m) ?E)))"
      unfolding b by (simp only: count_split)
    finally show "map_of pq' k = Some (int (length (filter
          (\<lambda>x. e_target x = k \<and> e_source x \<in> fst ` set pq') ?E)))"
      unfolding c .
  qed
  have c4: "\<forall>u \<in> set (node_ids g). mr' u \<noteq> None"
    using k3 mf by auto
  have c5: "\<forall>u \<in> set (node_ids g). u \<notin> fst ` set pq' \<longrightarrow> rank_of ?w1 g u = mr' u"
  proof (intro ballI impI)
    fix u assume u: "u \<in> set (node_ids g)" "u \<notin> fst ` set pq'"
    with keys' have o: "u \<notin> ?P - {?m}" by simp
    show "rank_of ?w1 g u = mr' u"
    proof (cases "u = ?m")
      case True
      with rank1 [OF u(1)] mr_same [OF o] r0 show ?thesis by simp
    next
      case False
      with o have "u \<notin> ?P" by simp
      with k4 u(1) have "rank_of w g u = mr u" by simp
      with False rank1 [OF u(1)] mr_same [OF o] show ?thesis by simp
    qed
  qed
  have c6: "\<forall>x \<in> set ?E. e_source x \<notin> fst ` set pq' \<longrightarrow>
          (\<exists>a b. rank_of ?w1 g (e_source x) = Some a \<and> mr' (e_target x) = Some b \<and>
                 a + len_of ?w1 x \<le> b)"
  proof (intro ballI impI)
    fix x assume x: "x \<in> set ?E" "e_source x \<notin> fst ` set pq'"
    from x(1) ends have sN: "e_source x \<in> set (node_ids g)"
      and tN: "e_target x \<in> set (node_ids g)" by auto
    show "\<exists>a b. rank_of ?w1 g (e_source x) = Some a \<and> mr' (e_target x) = Some b \<and>
                 a + len_of ?w1 x \<le> b"
    proof (cases "e_source x = ?m")
      case True
      with x(1) have xo: "x \<in> set ?out" by (simp add: outEdges_def)
      from k3 tN obtain b0 where b0: "mr (e_target x) = Some b0" by auto
      let ?L = "map (\<lambda>y. r0 + len_of ?w1 y) (filter (\<lambda>y. e_target y = e_target x) ?out)"
      have "r0 + len_of ?w1 x \<in> set ?L" using xo by auto
      then have "r0 + len_of ?w1 x \<le> fold max ?L b0" by (rule fold_max_mem)
      moreover have "mr' (e_target x) = Some (fold max ?L b0)"
        using mf b0 by simp
      moreover have "rank_of ?w1 g (e_source x) = Some r0"
        using rank1 [OF sN] True by simp
      ultimately show ?thesis by blast
    next
      case False
      with x(2) keys' have "e_source x \<notin> ?P" by simp
      with k5 x(1) obtain a b where ab: "rank_of w g (e_source x) = Some a"
        "mr (e_target x) = Some b" "a + len_of w x \<le> b" by blast
      from mr_ge [OF ab(2)] obtain b' where "mr' (e_target x) = Some b'" "b \<le> b'" by blast
      moreover have "rank_of ?w1 g (e_source x) = Some a"
        using rank1 [OF sN] False ab(1) by simp
      ultimately show ?thesis using ab(3) by auto
    qed
  qed
  have c7: "\<forall>x \<in> set ?E. e_target x \<notin> fst ` set pq' \<longrightarrow> e_source x \<notin> fst ` set pq'"
    unfolding keys' using k6 no_in by auto
  have inv': "kahn_inv g (pq', mr', ?w1)"
    unfolding kahn_inv_def prod.case
    using c1 c2 c3 c4 c5 c6 c7 wf1 by blast
  have "Suc (length pq') = length pq"
    using pq_remove_length [OF d mP] kf by (metis length_map)
  with r f inv' keys' no_in show ?thesis by blast
qed

lemma initRank_step_inv:
  assumes inv: "kahn_inv g (pq, mr, w)" and ne: "pq \<noteq> []" and le: "snd (pq_min pq) \<le> 0"
  shows "\<exists>pq' mr' w'. initRank_step g (pq, mr, w) = Inr (pq', mr', w') \<and>
     kahn_inv g (pq', mr', w') \<and> Suc (length pq') = length pq \<and> evals w' = evals w \<and>
     fst ` set pq' = fst ` set pq - {fst (pq_min pq)} \<and>
     (\<forall>x \<in> set (g_edges g). e_target x = fst (pq_min pq) \<longrightarrow> e_source x \<notin> fst ` set pq)"
proof -
  let ?m = "fst (pq_min pq)"
  from kahn_step [OF inv ne le] obtain r pq' mr' where
    all: "node_ref g ?m = Some r \<and>
     efold (updateTargetNode (upd_node r (\<lambda>v. v\<lparr> nv_rank := mr ?m \<rparr>) w) g)
       (outEdges g ?m) (pq_remove ?m pq, mr) = Inr (pq', mr') \<and>
     kahn_inv g (pq', mr', upd_node r (\<lambda>v. v\<lparr> nv_rank := mr ?m \<rparr>) w) \<and>
     Suc (length pq') = length pq \<and>
     fst ` set pq' = fst ` set pq - {?m} \<and>
     (\<forall>x \<in> set (g_edges g). e_target x = ?m \<longrightarrow> e_source x \<notin> fst ` set pq)"
    by (elim exE) (rule that)
  let ?w1 = "upd_node r (\<lambda>v. v\<lparr> nv_rank := mr ?m \<rparr>) w"
  from all have r: "node_ref g ?m = Some r" by (elim conjE)
  from all have f: "efold (updateTargetNode ?w1 g) (outEdges g ?m) (pq_remove ?m pq, mr) =
      Inr (pq', mr')" by (elim conjE)
  from all have r1: "kahn_inv g (pq', mr', ?w1)" by (elim conjE)
  from all have r2: "Suc (length pq') = length pq" by (elim conjE)
  from all have r3: "fst ` set pq' = fst ` set pq - {?m}" by (elim conjE)
  from all have r4: "\<forall>x \<in> set (g_edges g). e_target x = ?m \<longrightarrow> e_source x \<notin> fst ` set pq"
    by (elim conjE)
  have st: "initRank_step g (pq, mr, w) = Inr (pq', mr', ?w1)"
    using le r f by (simp add: initRank_step_def ebind_def Let_def)
  have ev: "evals ?w1 = evals w"
    by simp
  show ?thesis
    by (intro exI conjI) (rule st r1 r2 ev r3 r4)+
qed

text \<open>The same, with the parts of the conclusion named.\<close>

lemma initRank_step_next:
  assumes inv: "kahn_inv g (pq, mr, w)" and ne: "pq \<noteq> []" and le: "snd (pq_min pq) \<le> 0"
  obtains pq' mr' w1 where "initRank_step g (pq, mr, w) = Inr (pq', mr', w1)"
    and "kahn_inv g (pq', mr', w1)" and "Suc (length pq') = length pq"
    and "evals w1 = evals w" and "fst ` set pq' = fst ` set pq - {fst (pq_min pq)}"
    and "\<forall>x \<in> set (g_edges g). e_target x = fst (pq_min pq) \<longrightarrow> e_source x \<notin> fst ` set pq"
proof -
  from initRank_step_inv [OF inv ne le] obtain pq' mr' w1 where
    all: "initRank_step g (pq, mr, w) = Inr (pq', mr', w1) \<and>
     kahn_inv g (pq', mr', w1) \<and> Suc (length pq') = length pq \<and> evals w1 = evals w \<and>
     fst ` set pq' = fst ` set pq - {fst (pq_min pq)} \<and>
     (\<forall>x \<in> set (g_edges g). e_target x = fst (pq_min pq) \<longrightarrow> e_source x \<notin> fst ` set pq)"
    by (elim exE) (rule that)
  from all have a: "initRank_step g (pq, mr, w) = Inr (pq', mr', w1)" by (elim conjE)
  from all have b: "kahn_inv g (pq', mr', w1)" by (elim conjE)
  from all have c: "Suc (length pq') = length pq" by (elim conjE)
  from all have d: "evals w1 = evals w" by (elim conjE)
  from all have e: "fst ` set pq' = fst ` set pq - {fst (pq_min pq)}" by (elim conjE)
  from all have f: "\<forall>x \<in> set (g_edges g). e_target x = fst (pq_min pq) \<longrightarrow>
      e_source x \<notin> fst ` set pq" by (elim conjE)
  show ?thesis by (rule that [OF a b c d e f])
qed

lemma initRank_step_raises: "0 < snd (pq_min pq) \<Longrightarrow> initRank_step g (pq, mr, w) = Inl NotAcyclic"
  by (simp add: initRank_step_def)

lemma initRank_loop_inv:
  "kahn_inv g (pq, mr, w) \<Longrightarrow> length pq = n \<Longrightarrow>
   initRank_loop n g (pq, mr, w) = Inl NotAcyclic \<or>
   (\<exists>w' mr'. initRank_loop n g (pq, mr, w) = Inr w' \<and> kahn_inv g ([], mr', w') \<and>
       evals w' = evals w)"
proof (induction n arbitrary: pq mr w)
  case 0
  then show ?case by auto
next
  case (Suc n)
  then have ne: "pq \<noteq> []" by auto
  show ?case
  proof (cases "0 < snd (pq_min pq)")
    case True
    then show ?thesis by (simp add: initRank_step_raises ebind_def)
  next
    case False
    then have le: "snd (pq_min pq) \<le> 0" by simp
    from initRank_step_next [OF Suc.prems(1) ne le] obtain pq' mr' w1 where
      st: "initRank_step g (pq, mr, w) = Inr (pq', mr', w1)"
      and inv: "kahn_inv g (pq', mr', w1)"
      and len: "Suc (length pq') = length pq"
      and ev: "evals w1 = evals w" .
    from len Suc.prems(2) have "length pq' = n" by simp
    from Suc.IH [OF inv this]
    have "initRank_loop n g (pq', mr', w1) = Inl NotAcyclic \<or>
      (\<exists>w' mr''. initRank_loop n g (pq', mr', w1) = Inr w' \<and>
         kahn_inv g ([], mr'', w') \<and> evals w' = evals w)"
      using ev by simp
    moreover have "initRank_loop (Suc n) g (pq, mr, w) = initRank_loop n g (pq', mr', w1)"
      using st by (simp add: ebind_def)
    ultimately show ?thesis by simp
  qed
qed

text \<open>In an acyclic graph some key of a non-empty queue has no in-edge from a key, so
  the least priority is 0.\<close>

lemma kahn_acyclic_min:
  assumes inv: "kahn_inv g (pq, mr, w)" and ne: "pq \<noteq> []" and ac: "acyclic (edge_rel g)"
  shows "snd (pq_min pq) \<le> 0"
proof -
  let ?P = "fst ` set pq"
  have "finite (edge_rel g)" by (simp add: edge_rel_def)
  with ac have "wf (edge_rel g)" by (simp add: finite_acyclic_wf)
  then have m: "\<forall>Q x. x \<in> Q \<longrightarrow> (\<exists>z \<in> Q. \<forall>y. (y, z) \<in> edge_rel g \<longrightarrow> y \<notin> Q)"
    unfolding wf_eq_minimal .
  from ne obtain p where "p \<in> set pq" by (cases pq) auto
  then have "fst p \<in> ?P" by (rule imageI)
  with m [THEN spec, of ?P, THEN spec, of "fst p"]
  obtain z where z: "z \<in> ?P" and zmin: "\<forall>y. (y, z) \<in> edge_rel g \<longrightarrow> y \<notin> ?P"
    by blast
  have emp: "filter (\<lambda>x. e_target x = z \<and> e_source x \<in> ?P) (g_edges g) = []"
  proof -
    have "\<not> (e_target x = z \<and> e_source x \<in> ?P)" if "x \<in> set (g_edges g)" for x
    proof
      assume a: "e_target x = z \<and> e_source x \<in> ?P"
      from that have "(e_source x, e_target x) \<in> edge_rel g"
        unfolding edge_rel_def by (rule rev_image_eqI) simp
      with a zmin show False by simp
    qed
    then show ?thesis unfolding filter_empty_conv by blast
  qed
  from inv have k2: "\<forall>k \<in> ?P. map_of pq k = Some (int (length (filter
          (\<lambda>x. e_target x = k \<and> e_source x \<in> ?P) (g_edges g))))"
    unfolding kahn_inv_def prod.case by blast
  have "map_of pq z = Some 0"
    using bspec [OF k2 z] unfolding emp by simp
  then have "(z, 0) \<in> set pq" by (rule map_of_SomeD)
  from bspec [OF pq_min_least(2) [OF ne] this] show ?thesis by simp
qed

lemma initRank_loop_acyclic:
  "kahn_inv g (pq, mr, w) \<Longrightarrow> length pq = n \<Longrightarrow> acyclic (edge_rel g) \<Longrightarrow>
   \<exists>w' mr'. initRank_loop n g (pq, mr, w) = Inr w' \<and> kahn_inv g ([], mr', w')"
proof (induction n arbitrary: pq mr w)
  case 0
  then show ?case by auto
next
  case (Suc n)
  then have ne: "pq \<noteq> []" by auto
  from kahn_acyclic_min [OF Suc.prems(1) ne Suc.prems(3)] have le: "snd (pq_min pq) \<le> 0" .
  from initRank_step_next [OF Suc.prems(1) ne le] obtain pq' mr' w1 where
    st: "initRank_step g (pq, mr, w) = Inr (pq', mr', w1)"
    and inv: "kahn_inv g (pq', mr', w1)"
    and len: "Suc (length pq') = length pq" .
  from len Suc.prems(2) have "length pq' = n" by simp
  from Suc.IH [OF inv this Suc.prems(3)]
  have "\<exists>w' mr''. initRank_loop n g (pq', mr', w1) = Inr w' \<and> kahn_inv g ([], mr'', w')" .
  moreover have "initRank_loop (Suc n) g (pq, mr, w) = initRank_loop n g (pq', mr', w1)"
    using st by (simp add: ebind_def)
  ultimately show ?case by simp
qed

text \<open>A key that leaves the queue has no in-edge from a queued key, so it lies on no
  cycle: as long as the loop runs, every node on a cycle is still queued. The queue
  of a graph with a cycle therefore never runs empty, and the loop ends in the error
  branch.\<close>

lemma initRank_loop_cyclic:
  "kahn_inv g (pq, mr, w) \<Longrightarrow> length pq = n \<Longrightarrow>
   \<forall>x. (x, x) \<in> (edge_rel g)\<^sup>+ \<longrightarrow> x \<in> fst ` set pq \<Longrightarrow> (c, c) \<in> (edge_rel g)\<^sup>+ \<Longrightarrow>
   initRank_loop n g (pq, mr, w) = Inl NotAcyclic"
proof (induction n arbitrary: pq mr w)
  case 0
  then have "c \<in> fst ` set pq" by blast
  with 0 show ?case by simp
next
  case (Suc n)
  then have ne: "pq \<noteq> []" by auto
  show ?case
  proof (cases "0 < snd (pq_min pq)")
    case True
    then show ?thesis by (simp add: initRank_step_raises ebind_def)
  next
    case False
    then have le: "snd (pq_min pq) \<le> 0" by simp
    let ?m = "fst (pq_min pq)"
    from initRank_step_next [OF Suc.prems(1) ne le] obtain pq' mr' w1 where
      st: "initRank_step g (pq, mr, w) = Inr (pq', mr', w1)"
      and inv: "kahn_inv g (pq', mr', w1)"
      and len: "Suc (length pq') = length pq"
      and keys: "fst ` set pq' = fst ` set pq - {?m}"
      and no_in: "\<forall>x \<in> set (g_edges g). e_target x = ?m \<longrightarrow> e_source x \<notin> fst ` set pq" .
    have m_free: "(?m, ?m) \<notin> (edge_rel g)\<^sup>+"
    proof
      assume "(?m, ?m) \<in> (edge_rel g)\<^sup>+"
      then obtain y where y1: "(?m, y) \<in> (edge_rel g)\<^sup>*" and y2: "(y, ?m) \<in> edge_rel g"
        by (blast dest: tranclD2)
      from y2 y1 have "(y, y) \<in> (edge_rel g)\<^sup>+" by (rule rtrancl_into_trancl2)
      with Suc.prems(3) have yP: "y \<in> fst ` set pq" by blast
      from y2 obtain x where "x \<in> set (g_edges g)" "e_source x = y" "e_target x = ?m"
        by (auto simp: edge_rel_def)
      with no_in yP show False by blast
    qed
    have all: "\<forall>x. (x, x) \<in> (edge_rel g)\<^sup>+ \<longrightarrow> x \<in> fst ` set pq'"
    proof (intro allI impI)
      fix x assume x: "(x, x) \<in> (edge_rel g)\<^sup>+"
      with Suc.prems(3) have "x \<in> fst ` set pq" by blast
      moreover from x m_free have "x \<noteq> ?m" by blast
      ultimately show "x \<in> fst ` set pq'" unfolding keys by simp
    qed
    from len Suc.prems(2) have "length pq' = n" by simp
    from Suc.IH [OF inv this all Suc.prems(4)]
    have "initRank_loop n g (pq', mr', w1) = Inl NotAcyclic" .
    moreover have "initRank_loop (Suc n) g (pq, mr, w) = initRank_loop n g (pq', mr', w1)"
      using st by (simp add: ebind_def)
    ultimately show ?thesis by simp
  qed
qed

lemma cycle_nodes:
  assumes "wf_graph w g" and "(x, x) \<in> (edge_rel g)\<^sup>+"
  shows "x \<in> set (node_ids g)"
proof -
  from assms(2) obtain y where "(x, y) \<in> edge_rel g"
    by (blast dest: tranclD)
  then obtain e where "e \<in> set (g_edges g)" "e_source e = x"
    by (auto simp: edge_rel_def)
  with assms(1) show ?thesis by (auto simp: wf_graph_def)
qed

text \<open>The states of the loop: \<open>k\<close> iterations and then \<open>n\<close> more are \<open>k + n\<close> iterations,
  and each of the first \<open>length pq\<close> iterations keeps the invariant and takes one key
  from the queue.\<close>

lemma initRank_iter_loop:
  "initRank_iter k g s = Inr s' \<Longrightarrow> initRank_loop (k + n) g s = initRank_loop n g s'"
proof (induction k arbitrary: s)
  case 0
  then show ?case by simp
next
  case (Suc k)
  show ?case
  proof (cases "initRank_step g s")
    case (Inl e)
    with Suc.prems show ?thesis by (simp add: ebind_def)
  next
    case (Inr s1)
    with Suc.prems have "initRank_iter k g s1 = Inr s'" by (simp add: ebind_def)
    from Suc.IH [OF this] Inr show ?thesis by (simp add: ebind_def)
  qed
qed

lemma initRank_iter_inv:
  "kahn_inv g (pq, mr, w) \<Longrightarrow> k \<le> length pq \<Longrightarrow>
   initRank_iter k g (pq, mr, w) = Inr (pq', mr', w') \<Longrightarrow>
   kahn_inv g (pq', mr', w') \<and> length pq' + k = length pq"
proof (induction k arbitrary: pq mr w)
  case 0
  then show ?case by simp
next
  case (Suc k)
  then have ne: "pq \<noteq> []" by auto
  have le: "snd (pq_min pq) \<le> 0"
  proof (rule ccontr)
    assume "\<not> snd (pq_min pq) \<le> 0"
    then have "initRank_step g (pq, mr, w) = Inl NotAcyclic"
      by (simp add: initRank_step_raises)
    with Suc.prems(3) show False by (simp add: ebind_def)
  qed
  from initRank_step_next [OF Suc.prems(1) ne le] obtain pq1 mr1 w1 where
    st: "initRank_step g (pq, mr, w) = Inr (pq1, mr1, w1)"
    and inv: "kahn_inv g (pq1, mr1, w1)"
    and len: "Suc (length pq1) = length pq" .
  from st Suc.prems(3) have it: "initRank_iter k g (pq1, mr1, w1) = Inr (pq', mr', w')"
    by (simp add: ebind_def)
  from len Suc.prems(2) have "k \<le> length pq1" by simp
  from Suc.IH [OF inv this it] len show ?case by simp
qed

lemma kahn_final_ranks:
  assumes "kahn_inv g ([], mr, w)"
  shows "\<forall>u \<in> set (node_ids g). rank_of w g u \<noteq> None"
    and "\<forall>x \<in> set (g_edges g). \<exists>a b. rank_of w g (e_source x) = Some a \<and>
        rank_of w g (e_target x) = Some b \<and> len_of w x \<le> b - a"
proof -
  from assms have k3: "\<forall>u \<in> set (node_ids g). mr u \<noteq> None"
    and k4: "\<forall>u \<in> set (node_ids g). rank_of w g u = mr u"
    and k5: "\<forall>x \<in> set (g_edges g). \<exists>a b. rank_of w g (e_source x) = Some a \<and>
        mr (e_target x) = Some b \<and> a + len_of w x \<le> b"
    and wf: "wf_graph w g"
    unfolding kahn_inv_def prod.case by simp_all
  from k3 k4 show "\<forall>u \<in> set (node_ids g). rank_of w g u \<noteq> None" by simp
  show "\<forall>x \<in> set (g_edges g). \<exists>a b. rank_of w g (e_source x) = Some a \<and>
        rank_of w g (e_target x) = Some b \<and> len_of w x \<le> b - a"
  proof
    fix x assume x: "x \<in> set (g_edges g)"
    with k5 obtain a b where ab: "rank_of w g (e_source x) = Some a"
      "mr (e_target x) = Some b" "a + len_of w x \<le> b" by blast
    from wf x have "e_target x \<in> set (node_ids g)" by (simp add: wf_graph_def)
    with k4 ab(2) have "rank_of w g (e_target x) = Some b" by simp
    with ab show "\<exists>a b. rank_of w g (e_source x) = Some a \<and>
        rank_of w g (e_target x) = Some b \<and> len_of w x \<le> b - a"
      by auto
  qed
qed

lemma initRank_length: "length (fst (initRank_start g w)) = length (g_nodes g)"
  by (simp add: initRank_start_def node_ids_def)

lemma initRank_start_world: "snd (snd (initRank_start g w)) = w"
  by (simp add: initRank_start_def)

lemma initRank_start_keys: "fst ` set (fst (initRank_start g w)) = set (node_ids g)"
  by (auto simp: initRank_start_def image_iff)

lemma kahn_inv_start:
  assumes "wf_graph w g"
  shows "kahn_inv g (fst (initRank_start g w), fst (snd (initRank_start g w)),
     snd (snd (initRank_start g w)))"
  using kahn_inv_init [OF assms] by simp

lemma initRank_unfold:
  "initRank g w = initRank_loop (length (g_nodes g)) g
     (fst (initRank_start g w), fst (snd (initRank_start g w)), snd (snd (initRank_start g w)))"
  by (simp add: initRank_def)

lemma initRank_cyclic:
  assumes wf: "wf_graph w g" and cyc: "\<not> acyclic (edge_rel g)"
  shows "initRank g w = Inl NotAcyclic"
proof -
  from cyc obtain c where c: "(c, c) \<in> (edge_rel g)\<^sup>+"
    by (auto simp: acyclic_def)
  have "\<forall>x. (x, x) \<in> (edge_rel g)\<^sup>+ \<longrightarrow> x \<in> fst ` set (fst (initRank_start g w))"
    unfolding initRank_start_keys using cycle_nodes [OF wf] by blast
  from initRank_loop_cyclic [OF kahn_inv_start [OF wf] initRank_length this c]
  show ?thesis unfolding initRank_unfold .
qed

lemma initRank_returns:
  assumes wf: "wf_graph w g" and ac: "acyclic (edge_rel g)"
  shows "\<exists>w'. initRank g w = Inr w' \<and> (\<forall>u \<in> set (node_ids g). rank_of w' g u \<noteq> None)"
proof -
  from initRank_loop_acyclic [OF kahn_inv_start [OF wf] initRank_length ac] obtain w' mr' where
    "initRank g w = Inr w'" "kahn_inv g ([], mr', w')"
    unfolding initRank_unfold by blast
  with kahn_final_ranks(1) [of g mr' w'] show ?thesis by blast
qed

lemma initRank_error:
  assumes wf: "wf_graph w g" and "isl (initRank g w)"
  shows "initRank g w = Inl NotAcyclic"
  using initRank_loop_inv [OF kahn_inv_start [OF wf] initRank_length] assms(2)
  unfolding initRank_unfold by auto

lemma initRank_reached:
  assumes wf: "wf_graph w g" and k: "k \<le> length (g_nodes g)"
    and it: "initRank_iter k g (initRank_start g w) = Inr (pq, mr, w1)"
    and ne: "pq \<noteq> []" and pos: "0 < snd (pq_min pq)"
  shows "initRank g w = Inl NotAcyclic"
proof -
  let ?s = "initRank_start g w"
  have it': "initRank_iter k g (fst ?s, fst (snd ?s), snd (snd ?s)) = Inr (pq, mr, w1)"
    using it by simp
  from k have "k \<le> length (fst ?s)" by (simp add: initRank_length)
  from initRank_iter_inv [OF kahn_inv_start [OF wf] this it']
  have "length pq + k = length (g_nodes g)" by (simp add: initRank_length)
  with ne have "k < length (g_nodes g)" by (cases pq) auto
  then obtain n where n: "length (g_nodes g) = k + Suc n"
    by (metis less_imp_Suc_add add_Suc_right)
  have "initRank g w = initRank_loop (k + Suc n) g ?s"
    by (simp add: initRank_def n)
  also have "\<dots> = initRank_loop (Suc n) g (pq, mr, w1)"
    using it by (rule initRank_iter_loop)
  also have "\<dots> = Inl NotAcyclic"
    using pos by (simp add: initRank_step_raises ebind_def)
  finally show ?thesis .
qed

text \<open>An error of the Rank stage is the outcome of \<^verbatim>\<open>run\<close>: the \<^verbatim>\<open>try\<close> block is left
  at once, with the rank separation halved, and no graph is returned.\<close>

lemma rank_error_ends_run:
  assumes "initLayoutGraph ig = Inr (w0, g0)" and "g_nodes g0 \<noteq> []"
    and "rank (rank_input (ig_directed ig) (double_minLen g0 w0, g0)) = Inl e"
  shows "run_body c ig = (c\<lparr> rankSep := rankSep c / 2 \<rparr>, Inl e)" and "run c ig = (c, Inl e)"
proof -
  have "ranked (ig_directed ig) (double_minLen g0 w0, g0) = Inl e"
    using assms(3) by (simp add: ranked_def rank_input_def Let_def ebind_def)
  then have "stages c' (ig_directed ig) (double_minLen g0 w0, g0) = Inl e" for c'
    by (simp add: stages_def ebind_def)
  then show b: "run_body c ig = (c\<lparr> rankSep := rankSep c / 2 \<rparr>, Inl e)"
    using assms(1,2) by (simp add: run_body_def Let_def)
  show "run c ig = (c, Inl e)"
    by (simp add: run_def b)
qed

lemma ex_pivot_wf: "wf_graph ex_pivot_world ex_pivot_graph"
  by code_simp

lemma ex_pivot_acyclic: "acyclic (edge_rel ex_pivot_graph)"
proof (rule acyclicI_order)
  fix a b assume "(a, b) \<in> edge_rel ex_pivot_graph"
  then show "(if b = ''a'' then 2 else if b = ''b'' then 1 else (0::nat))
      < (if a = ''a'' then 2 else if a = ''b'' then 1 else 0)"
    by (auto simp: edge_rel_def ex_pivot_graph_def mk_edge_def empty_graph_def)
qed

lemma ex_cycle_wf: "wf_graph ex_pivot_world ex_cycle_graph"
  by code_simp

lemma ex_cycle_cyclic: "\<not> acyclic (edge_rel ex_cycle_graph)"
proof -
  have "(''b'', ''c'') \<in> edge_rel ex_cycle_graph" "(''c'', ''b'') \<in> edge_rel ex_cycle_graph"
    by (simp_all add: edge_rel_def ex_cycle_graph_def mk_edge_def empty_graph_def image_iff)
  then have "(''b'', ''b'') \<in> (edge_rel ex_cycle_graph)\<^sup>+"
    by (rule trancl_into_trancl [OF r_into_trancl])
  then show ?thesis by (auto simp: acyclic_def)
qed

lemma ex_cycle_reduced:
  "combineRanks (ex_pivot_world, filterNodes (filterNonSubgraphs ex_cycle_graph) ex_cycle_graph) =
     Inr (ex_pivot_world, ex_cycle_graph)"
proof -
  have "filterNodes (filterNonSubgraphs ex_cycle_graph) ex_cycle_graph = ex_cycle_graph"
    by (simp add: filterNodes_def filterNonSubgraphs_def ex_cycle_graph_def empty_graph_def)
  then show ?thesis
    by (simp add: combineRanks_def ex_cycle_graph_def empty_graph_def ex_pivot_world_def
        pivot_node_def new_node_value_def)
qed

text \<open>
  C7. On a well-formed graph, \<^verbatim>\<open>initRank\<close> raises the not-acyclic error exactly when
  the graph has a cycle. Whenever the loop reaches an iteration (the queue is not
  empty) in which the least priority in the queue is above 0, \<^verbatim>\<open>initRank\<close> ends in that
  error, and it is the only error \<^verbatim>\<open>initRank\<close> raises. On an acyclic graph the branch
  is never taken: \<^verbatim>\<open>initRank\<close> returns, and every node has a rank. The error leaves no
  partial result: when the reduced graph \<^verbatim>\<open>combineRanks\<close> hands to \<^verbatim>\<open>initRank\<close> has a
  cycle, \<^verbatim>\<open>rank\<close> ends in the error without a ranking, and an error of \<^verbatim>\<open>rank\<close> is what
  \<^verbatim>\<open>run\<close> ends in, without a graph.
\<close>

theorem initRank_acyclic:
  assumes "wf_graph w g"
  shows "(initRank g w = Inl NotAcyclic \<longleftrightarrow> \<not> acyclic (edge_rel g))
       \<and> (\<forall>k pq mr w1. k \<le> length (g_nodes g) \<and>
            initRank_iter k g (initRank_start g w) = Inr (pq, mr, w1) \<and>
            pq \<noteq> [] \<and> 0 < snd (pq_min pq) \<longrightarrow> initRank g w = Inl NotAcyclic)
       \<and> (isl (initRank g w) \<longrightarrow> initRank g w = Inl NotAcyclic)
       \<and> (acyclic (edge_rel g) \<longrightarrow>
            (\<exists>w'. initRank g w = Inr w' \<and> (\<forall>u \<in> set (node_ids g). rank_of w' g u \<noteq> None)))
       \<and> (\<forall>w0 g0. combineRanks (w0, filterNodes (filterNonSubgraphs g0) g0) = Inr (w, g) \<and>
            \<not> acyclic (edge_rel g) \<longrightarrow> rank (w0, g0) = Inl NotAcyclic)
       \<and> (\<forall>c ig w0 g0 e. initLayoutGraph ig = Inr (w0, g0) \<and> g_nodes g0 \<noteq> [] \<and>
            rank (rank_input (ig_directed ig) (double_minLen g0 w0, g0)) = Inl e \<longrightarrow>
            run c ig = (c, Inl e))"
proof -
  have a: "initRank g w = Inl NotAcyclic \<longleftrightarrow> \<not> acyclic (edge_rel g)"
  proof
    assume e: "initRank g w = Inl NotAcyclic"
    show "\<not> acyclic (edge_rel g)"
    proof
      assume "acyclic (edge_rel g)"
      from initRank_returns [OF assms this] e show False by auto
    qed
  next
    assume "\<not> acyclic (edge_rel g)"
    with assms show "initRank g w = Inl NotAcyclic" by (rule initRank_cyclic)
  qed
  have b: "\<forall>k pq mr w1. k \<le> length (g_nodes g) \<and>
            initRank_iter k g (initRank_start g w) = Inr (pq, mr, w1) \<and>
            pq \<noteq> [] \<and> 0 < snd (pq_min pq) \<longrightarrow> initRank g w = Inl NotAcyclic"
    using initRank_reached [OF assms] by blast
  have c: "isl (initRank g w) \<longrightarrow> initRank g w = Inl NotAcyclic"
    using initRank_error [OF assms] by blast
  have d: "acyclic (edge_rel g) \<longrightarrow>
            (\<exists>w'. initRank g w = Inr w' \<and> (\<forall>u \<in> set (node_ids g). rank_of w' g u \<noteq> None))"
    using initRank_returns [OF assms] by blast
  have e: "\<forall>w0 g0. combineRanks (w0, filterNodes (filterNonSubgraphs g0) g0) = Inr (w, g) \<and>
            \<not> acyclic (edge_rel g) \<longrightarrow> rank (w0, g0) = Inl NotAcyclic"
  proof (intro allI impI)
    fix w0 g0
    assume h: "combineRanks (w0, filterNodes (filterNonSubgraphs g0) g0) = Inr (w, g) \<and>
            \<not> acyclic (edge_rel g)"
    with a have i: "initRank g w = Inl NotAcyclic" by simp
    from h show "rank (w0, g0) = Inl NotAcyclic"
      by (simp add: rank_def Let_def ebind_def i)
  qed
  have f: "\<forall>c ig w0 g0 e. initLayoutGraph ig = Inr (w0, g0) \<and> g_nodes g0 \<noteq> [] \<and>
            rank (rank_input (ig_directed ig) (double_minLen g0 w0, g0)) = Inl e \<longrightarrow>
            run c ig = (c, Inl e)"
    using rank_error_ends_run(2) by blast
  from a b c d e f show ?thesis by (intro conjI)
qed

text \<open>The witness takes the acyclic graph of the pivot example, which \<^verbatim>\<open>initRank\<close>
  ranks, and the graph with the cycle \<open>b \<rightarrow> c \<rightarrow> b\<close>: its first iteration takes \<open>a\<close>, of
  priority 0, the second finds the least priority 1, and \<^verbatim>\<open>initRank\<close> and \<^verbatim>\<open>rank\<close> end in
  the error.\<close>

theorem initRank_acyclic_witness:
  "wf_graph ex_pivot_world ex_pivot_graph \<and> acyclic (edge_rel ex_pivot_graph)
   \<and> (\<exists>w'. initRank ex_pivot_graph ex_pivot_world = Inr w' \<and>
         (\<forall>u \<in> set (node_ids ex_pivot_graph). rank_of w' ex_pivot_graph u \<noteq> None))
   \<and> wf_graph ex_pivot_world ex_cycle_graph \<and> \<not> acyclic (edge_rel ex_cycle_graph)
   \<and> snd (pq_min (fst (initRank_start ex_cycle_graph ex_pivot_world))) = 0
   \<and> map fst (fst (projr (initRank_iter 1 ex_cycle_graph
         (initRank_start ex_cycle_graph ex_pivot_world)))) = [''b'', ''c'']
   \<and> snd (pq_min (fst (projr (initRank_iter 1 ex_cycle_graph
         (initRank_start ex_cycle_graph ex_pivot_world))))) = 1
   \<and> initRank ex_cycle_graph ex_pivot_world = Inl NotAcyclic
   \<and> rank (ex_pivot_world, ex_cycle_graph) = Inl NotAcyclic"
proof -
  have p0: "snd (pq_min (fst (initRank_start ex_cycle_graph ex_pivot_world))) = 0"
    by code_simp
  have p1: "map fst (fst (projr (initRank_iter 1 ex_cycle_graph
         (initRank_start ex_cycle_graph ex_pivot_world)))) = [''b'', ''c'']"
    by code_simp
  have p2: "snd (pq_min (fst (projr (initRank_iter 1 ex_cycle_graph
         (initRank_start ex_cycle_graph ex_pivot_world))))) = 1"
    by code_simp
  from initRank_acyclic [OF ex_pivot_wf] initRank_acyclic [OF ex_cycle_wf]
    ex_pivot_wf ex_pivot_acyclic ex_cycle_wf ex_cycle_cyclic ex_cycle_reduced p0 p1 p2
  show ?thesis by blast
qed

text \<open>What \<^verbatim>\<open>initRank\<close> delivers on its own: when it returns on a well-formed graph, both
  ends of every edge of the graph are ranked and the rank of the target exceeds the
  rank of the source by at least the edge's \<^verbatim>\<open>minLen\<close> (read as 1 when the edge has
  none).\<close>

lemma initRank_feasible:
  assumes "wf_graph w g" and "initRank g w = Inr w'"
  shows "\<forall>x \<in> set (g_edges g). \<exists>a b. rank_of w' g (e_source x) = Some a \<and>
     rank_of w' g (e_target x) = Some b \<and> len_of w' x \<le> b - a \<and> len_of w' x = len_of w x"
proof -
  from initRank_loop_inv [OF kahn_inv_start [OF assms(1)] initRank_length] assms(2) obtain mr' where
    k: "kahn_inv g ([], mr', w')" and e: "evals w' = evals w"
    unfolding initRank_unfold initRank_start_world by auto
  from e have "len_of w' x = len_of w x" for x by (simp add: len_of_def)
  with kahn_final_ranks(2) [OF k] show ?thesis by simp
qed

lemma initRank_feasible_example:
  "wf_graph ex_pivot_world ex_pivot_graph
   \<and> initRank ex_pivot_graph ex_pivot_world = Inr (projr (initRank ex_pivot_graph ex_pivot_world))
   \<and> mk_edge ''e4'' ''b'' ''c'' 3 \<in> set (g_edges ex_pivot_graph)
   \<and> (\<exists>a b.
         rank_of (projr (initRank ex_pivot_graph ex_pivot_world)) ex_pivot_graph ''b'' = Some a \<and>
         rank_of (projr (initRank ex_pivot_graph ex_pivot_world)) ex_pivot_graph ''c'' = Some b \<and>
         len_of (projr (initRank ex_pivot_graph ex_pivot_world)) (mk_edge ''e4'' ''b'' ''c'' 3)
           \<le> b - a)"
proof -
  have "\<not> isl (initRank ex_pivot_graph ex_pivot_world)" by code_simp
  then have r: "initRank ex_pivot_graph ex_pivot_world =
      Inr (projr (initRank ex_pivot_graph ex_pivot_world))"
    by simp
  have m: "mk_edge ''e4'' ''b'' ''c'' 3 \<in> set (g_edges ex_pivot_graph)"
    by (simp add: ex_pivot_graph_def)
  from bspec [OF initRank_feasible [OF ex_pivot_wf r] m] ex_pivot_wf r m show ?thesis
    by (auto simp: mk_edge_def)
qed

section \<open>The ranking at the end of the Rank stage\<close>

text \<open>The working graph of \<open>ex_four\<close> is a plain acyclic graph without rank
  constraints, and \<^verbatim>\<open>initRank\<close> ranks it feasibly: \<open>c\<close> and \<open>a\<close> at 0, \<open>b\<close> at 2, \<open>d\<close> at
  6.\<close>

lemma ex_four_initRank:
  "map (rank_of (projr (initRank (snd ex_four_work) (fst ex_four_work))) (snd ex_four_work))
     [''c'', ''a'', ''b'', ''d''] = [Some 0, Some 0, Some 2, Some 6]
   \<and> map (len_of (fst ex_four_work)) (g_edges (snd ex_four_work)) = [2, 2, 4, 2]"
  by code_simp

text \<open>
  C1. The claim is that after the Rank stage every edge \<open>(u, v)\<close> of the ranked working
  graph has \<open>rank(v) - rank(u) \<ge> minLen(u, v)\<close>. The code does not deliver this. The
  ranking \<^verbatim>\<open>initRank\<close> computes is feasible, but \<^verbatim>\<open>feasibleTree\<close>, which runs next,
  measures the slack of an edge with an absolute value, takes the edge of least slack
  even when that slack is negative, and sets the rank of the node it adds from that
  one edge. For the graph \<open>ex_four\<close> (edges \<open>a \<rightarrow> d\<close>, \<open>a \<rightarrow> b\<close> and \<open>c \<rightarrow> d\<close> with
  \<^verbatim>\<open>minLen = 1\<close>, \<open>b \<rightarrow> d\<close> with \<^verbatim>\<open>minLen = 2\<close>; no rank constraint) the working edge \<open>_2: a \<rightarrow> b\<close> has the
  doubled \<^verbatim>\<open>minLen = 2\<close>, and the Rank stage ends with \<open>a\<close> at rank 2 and \<open>b\<close> at rank 0.
\<close>

theorem rank_stage_infeasible:
  "out_edges (run_to_rank ex_four) =
     [(''_1'', ''a'', ''d''), (''_2'', ''a'', ''b''), (''_3'', ''b'', ''d''), (''_4'', ''c'', ''d'')]
   \<and> map_option ev_minLen (out_edge_value (run_to_rank ex_four) ''_2'') = Some (Some 2)
   \<and> out_rank (run_to_rank ex_four) ''a'' = Some 2
   \<and> out_rank (run_to_rank ex_four) ''b'' = Some 0"
  by code_simp

text \<open>By design the same happens under a rank constraint: an edge into a node of
  preferred rank \<^verbatim>\<open>"min"\<close> is turned round in the reduced graph, so in the working
  graph its target is ranked above its source.\<close>

lemma rank_stage_min_reversed:
  "out_edges (run_to_rank ex_min) = [(''_1'', ''x'', ''m'')]
   \<and> map_option ev_minLen (out_edge_value (run_to_rank ex_min) ''_1'') = Some (Some 2)
   \<and> out_rank (run_to_rank ex_min) ''x'' = Some 2
   \<and> out_rank (run_to_rank ex_min) ''m'' = Some 0"
  by code_simp

section \<open>Normalization\<close>

subsection \<open>Graph operations that succeed\<close>










subsection \<open>One chain of dummy nodes\<close>




subsection \<open>One edge\<close>




lemma delEdge_fields [simp]:
  "g_nodes (delEdge e g) = g_nodes g" "g_nextId (delEdge e g) = g_nextId g"
  "g_edges (delEdge e g) = filter (\<lambda>y. e_id y \<noteq> e) (g_edges g)"
  by (simp_all add: delEdge_def)



subsection \<open>All edges\<close>

















subsection \<open>Generated ids\<close>







subsection \<open>The graph after \<^verbatim>\<open>normalize\<close>\<close>













section \<open>Denormalization\<close>

subsection \<open>What order and position leave alone\<close>






subsection \<open>One node of \<^verbatim>\<open>undoNormalize\<close>\<close>





lemma nvals_upd_edge [simp]: "nvals (upd_edge r f w) = nvals w"
  by (simp add: upd_edge_def split: option.splits)



subsection \<open>Nodes that do not touch a given edge\<close>







subsection \<open>The dummies of one edge\<close>





subsection \<open>The chain of one edge in \<^verbatim>\<open>undoNormalize\<close>\<close>






subsection \<open>All nodes\<close>





subsection \<open>The points of an edge after \<^verbatim>\<open>undoNormalize\<close>\<close>








end
